theory Spec2Isabelle
  imports Main "HOL-Library.Sublist" "HOL-Library.Multiset" "HOL-Library.Log_Nat" "HOL-Library.AList"
begin

section \<open>Data received from the backend\<close>

text \<open>
  The frontend works on JSON documents. A JSON number is modelled as a rational number,
  a field that may be absent, \<open>null\<close> or \<open>undefined\<close> as an \<open>option\<close>, a JavaScript string
  as a \<open>string\<close>. A file of the analysed repository (\<open>analysisData.files[i]\<close>):
\<close>

record file_record =
  path :: string
  content :: string
  file_language :: string
  file_size :: nat

text \<open>One entry of \<open>analysisData.analysis\<close>; the two scores may be missing.\<close>

record analysis_entry =
  file_path :: string
  language :: string
  complexity_score :: "rat option"
  documentation_quality :: "rat option"

text \<open>The \<open>documentation\<close> object; only \<open>quality_score\<close> is read by the metrics.\<close>

record documentation =
  quality_score :: "rat option"

record analysis_data =
  analysis :: "analysis_entry list option"
  files :: "file_record list option"
  doc :: "documentation option"

text \<open>The request built by the input form and posted to \<open>/analyze-repo\<close>.\<close>

record repo_request =
  repo_url :: string
  branch :: string
  repo_name :: string

section \<open>services/api: errors\<close>

text \<open>
  A thrown value as \<open>formatError\<close> reads it: \<open>error.response?.status\<close>, \<open>error.code\<close>,
  \<open>error.message\<close>, and \<open>error.response?.data?.detail\<close> as read by the service methods.
  An error of axios carries \<open>response\<close> when the backend answered with an error status.
\<close>

record http_response =
  status :: nat
  detail :: "string option"

record js_error =
  response :: "http_response option"
  code :: "string option"
  message :: "string option"

text \<open>\<open>new Error(msg)\<close>: only a message, no \<open>response\<close> and no \<open>code\<close>.\<close>

definition new_Error :: "string \<Rightarrow> js_error" where
  "new_Error msg = \<lparr>response = None, code = None, message = Some msg\<rparr>"

text \<open>\<open>x || d\<close> on an optional string: the empty string and a missing value are falsy.\<close>

definition or_else :: "string option \<Rightarrow> string \<Rightarrow> string" where
  "or_else x d = (case x of None \<Rightarrow> d | Some s \<Rightarrow> if s = [] then d else s)"

definition response_detail :: "js_error \<Rightarrow> string option" where
  "response_detail e = (case response e of None \<Rightarrow> None | Some r \<Rightarrow> detail r)"

definition response_status :: "js_error \<Rightarrow> nat option" where
  "response_status e = (case response e of None \<Rightarrow> None | Some r \<Rightarrow> Some (status r))"

definition formatError :: "js_error \<Rightarrow> string" where
  "formatError e =
     (if response_status e = Some 422 then
        ''Invalid input data. Please check your repository URL.''
      else if response_status e = Some 404 then
        ''Repository not found. Please check the URL and try again.''
      else if response_status e = Some 500 then
        ''Server error. Please try again later.''
      else if code e = Some ''NETWORK_ERROR'' then
        ''Network error. Please check your connection and ensure the backend is running.''
      else or_else (message e) ''An unexpected error occurred'')"

text \<open>
  \<open>apiService.analyzeRepository\<close>: the outcome of \<open>api.post\<close> is a parameter, \<open>Inr\<close> the
  response data, \<open>Inl\<close> the rejection. The \<open>catch\<close> block throws a fresh \<open>Error\<close>.
\<close>

definition analyzeRepository :: "js_error + analysis_data \<Rightarrow> js_error + analysis_data" where
  "analyzeRepository post =
     (case post of
        Inr data \<Rightarrow> Inr data
      | Inl e \<Rightarrow> Inl (new_Error (or_else (response_detail e) ''Failed to analyze repository'')))"

section \<open>App: the analysis workflow\<close>

record app_state =
  analysisData :: "analysis_data option"
  isLoading :: bool
  error :: "string option"
  currentRepo :: "repo_request option"
  searchResults :: "string list option"
  activeTab :: string

definition app_init :: app_state where
  "app_init = \<lparr>analysisData = None, isLoading = False, error = None, currentRepo = None,
     searchResults = None, activeTab = ''overview''\<rparr>"

text \<open>
  \<open>handleAnalyzeRepo\<close> runs in two parts: up to the \<open>await\<close>, and from the settled
  promise on (\<open>try\<close>/\<open>catch\<close>/\<open>finally\<close>).
\<close>

definition handleAnalyzeRepo_begin :: "repo_request \<Rightarrow> app_state \<Rightarrow> app_state" where
  "handleAnalyzeRepo_begin repoData s =
     s\<lparr>isLoading := True, error := None, analysisData := None, searchResults := None,
       currentRepo := Some repoData\<rparr>"

definition handleAnalyzeRepo_resume :: "js_error + analysis_data \<Rightarrow> app_state \<Rightarrow> app_state" where
  "handleAnalyzeRepo_resume post s =
     (case analyzeRepository post of
        Inr result \<Rightarrow> s\<lparr>analysisData := Some result, activeTab := ''overview'', isLoading := False\<rparr>
      | Inl err \<Rightarrow> s\<lparr>error := Some (formatError err), isLoading := False\<rparr>)"

definition handleAnalyzeRepo :: "repo_request \<Rightarrow> js_error + analysis_data \<Rightarrow> app_state \<Rightarrow> app_state" where
  "handleAnalyzeRepo repoData post s = handleAnalyzeRepo_resume post (handleAnalyzeRepo_begin repoData s)"

definition clearAnalysis :: "app_state \<Rightarrow> app_state" where
  "clearAnalysis s = s\<lparr>analysisData := None, error := None, currentRepo := None,
     searchResults := None, activeTab := ''overview''\<rparr>"

text \<open>The error a backend answer with status \<open>st\<close> and no \<open>detail\<close> is rejected with.\<close>

definition status_error :: "nat \<Rightarrow> js_error" where
  "status_error st = \<lparr>response = Some \<lparr>status = st, detail = None\<rparr>, code = None,
     message = Some ''Request failed''\<rparr>"

section \<open>Numbers\<close>

text \<open>
  A JavaScript number is an IEEE-754 binary64 value: the result of every arithmetic
  operation is the exact result rounded to the nearest representable value, ties to the
  even significand. The metrics below take this rounding as a parameter \<open>fl\<close>, applied to
  the exact result of each operation: \<open>double\<close> for the numbers of JavaScript, \<open>id\<close> for
  exact arithmetic. \<open>double\<close> covers the normal and subnormal range; overflow to
  \<open>Infinity\<close> (results of magnitude \<open>2 ^ 1024\<close> and above) is outside the model, as is
  \<open>NaN\<close>, which no operation below produces from finite operands.
\<close>

definition ilog2 :: "rat \<Rightarrow> int" where
  \<comment> \<open>the exponent \<open>e\<close> with \<open>2 ^ e \<le> |x| < 2 ^ (e + 1)\<close>, for \<open>x \<noteq> 0\<close>\<close>
  "ilog2 x = (if 1 \<le> \<bar>x\<bar> then bitlen \<lfloor>\<bar>x\<bar>\<rfloor> - 1 else - bitlen (\<lceil>1 / \<bar>x\<bar>\<rceil> - 1))"

definition round_ties_even :: "rat \<Rightarrow> int" where
  "round_ties_even m =
     (let f = \<lfloor>m\<rfloor>; d = m - of_int f
      in if d < 1 / 2 then f else if 1 / 2 < d then f + 1 else if even f then f else f + 1)"

definition double :: "rat \<Rightarrow> rat" where
  "double x =
     (if x = 0 then 0
      else let e = max (ilog2 x - 52) (- 1074)
           in of_int (round_ties_even (x / 2 powi e)) * 2 powi e)"

text \<open>\<open>Math.round\<close>: the nearest integer, a tie going up.\<close>

definition Math_round :: "rat \<Rightarrow> rat" where
  "Math_round x = of_int \<lfloor>x + 1 / 2\<rfloor>"

text \<open>\<open>v || 0\<close> on an optional number: a missing value and \<open>0\<close> both give \<open>0\<close>.\<close>

definition num_or_zero :: "rat option \<Rightarrow> rat" where
  "num_or_zero v = (case v of None \<Rightarrow> 0 | Some x \<Rightarrow> x)"

text \<open>\<open>xs.reduce((a, b) => a + b, 0)\<close>\<close>

definition reduce_add :: "(rat \<Rightarrow> rat) \<Rightarrow> rat list \<Rightarrow> rat" where
  "reduce_add fl xs = foldl (\<lambda>a b. fl (a + b)) 0 xs"

section \<open>Strings\<close>

text \<open>
  A string is a list of 8-bit characters, which is what the paths, language tags and
  references of the claims are made of. \<open>toLowerCase\<close> maps the letters \<open>A\<close> to \<open>Z\<close> to
  \<open>a\<close> to \<open>z\<close> and leaves every other character as it is.
\<close>

definition toLowerCase_char :: "char \<Rightarrow> char" where
  "toLowerCase_char c =
     (if 65 \<le> (of_char c :: nat) \<and> (of_char c :: nat) \<le> 90 then char_of (of_char c + (32 :: nat)) else c)"

definition toLowerCase :: "string \<Rightarrow> string" where
  "toLowerCase s = map toLowerCase_char s"

text \<open>\<open>s.includes(t)\<close>: \<open>t\<close> occurs in \<open>s\<close> as a run of consecutive characters.\<close>

fun str_includes :: "string \<Rightarrow> string \<Rightarrow> bool" where
  "str_includes [] t = (t = [])"
| "str_includes (c # cs) t = (prefix t (c # cs) \<or> str_includes cs t)"

section \<open>QualityScore: calculateMetrics\<close>

record recommendation =
  rec_type :: string
  rec_text :: string

record language_stats =
  stat_count :: nat
  stat_avgComplexity :: rat
  stat_avgDoc :: rat

record quality_metrics =
  documentation_coverage :: rat
  code_complexity :: rat
  maintainability_score :: rat
  test_coverage :: rat
  overall_score :: rat
  recommendations :: "recommendation list"
  languageStats :: "(string \<times> language_stats) list"
  totalFiles :: nat
  analyzedFiles :: nat

text \<open>\<open>analysisData?.analysis || []\<close> and \<open>analysisData?.files || []\<close>\<close>

definition analysis_of :: "analysis_data \<Rightarrow> analysis_entry list" where
  "analysis_of ad = (case analysis ad of None \<Rightarrow> [] | Some a \<Rightarrow> a)"

definition files_of :: "analysis_data \<Rightarrow> file_record list" where
  "files_of ad = (case files ad of None \<Rightarrow> [] | Some f \<Rightarrow> f)"

definition docCoverage :: "(rat \<Rightarrow> rat) \<Rightarrow> analysis_entry list \<Rightarrow> rat" where
  "docCoverage fl an =
     (let docScores = map (\<lambda>a. num_or_zero (documentation_quality a)) an
      in if length docScores > 0 then fl (reduce_add fl docScores / of_nat (length docScores)) else 0)"

definition avgComplexity :: "(rat \<Rightarrow> rat) \<Rightarrow> analysis_entry list \<Rightarrow> rat" where
  "avgComplexity fl an =
     (let complexityScores = map (\<lambda>a. num_or_zero (complexity_score a)) an
      in if length complexityScores > 0
         then fl (reduce_add fl complexityScores / of_nat (length complexityScores)) else 0)"

definition maintainability :: "(rat \<Rightarrow> rat) \<Rightarrow> analysis_entry list \<Rightarrow> rat" where
  "maintainability fl an = fl (fl (docCoverage fl an + fl (10 - avgComplexity fl an)) / 2)"

definition testFiles :: "analysis_entry list \<Rightarrow> nat" where
  "testFiles an = length (filter (\<lambda>a. str_includes (toLowerCase (file_path a)) ''test'') an)"

definition testCoverage :: "(rat \<Rightarrow> rat) \<Rightarrow> analysis_entry list \<Rightarrow> file_record list \<Rightarrow> rat" where
  "testCoverage fl an fs =
     (if length fs > 0
      then min (fl (fl (of_nat (testFiles an) / of_nat (length fs)) * 100)) 100 else 0)"

text \<open>The weighted sum; the literals \<open>0.3\<close> and \<open>0.2\<close> are the numbers nearest to them.\<close>

definition weightedScore :: "(rat \<Rightarrow> rat) \<Rightarrow> analysis_entry list \<Rightarrow> file_record list \<Rightarrow> rat" where
  "weightedScore fl an fs =
     fl (fl (fl (fl (docCoverage fl an * fl (3 / 10))
               + fl (fl (10 - avgComplexity fl an) * fl (3 / 10)))
           + fl (maintainability fl an * fl (2 / 10)))
       + fl (fl (testCoverage fl an fs / 10) * fl (2 / 10)))"

text \<open>\<open>documentation?.quality_score || ...\<close>: a missing score and the score \<open>0\<close> are falsy.\<close>

definition overallScore ::
  "(rat \<Rightarrow> rat) \<Rightarrow> analysis_entry list \<Rightarrow> file_record list \<Rightarrow> documentation \<Rightarrow> rat" where
  "overallScore fl an fs documentation =
     (case quality_score documentation of
        Some q \<Rightarrow> if q \<noteq> 0 then q else weightedScore fl an fs
      | None \<Rightarrow> weightedScore fl an fs)"

definition push :: "'a list \<Rightarrow> 'a \<Rightarrow> 'a list" where
  "push xs x = xs @ [x]"

definition doc_warning :: recommendation where
  "doc_warning = \<lparr>rec_type = ''warning'', rec_text = ''Improve code documentation and comments''\<rparr>"

definition complexity_warning :: recommendation where
  "complexity_warning = \<lparr>rec_type = ''warning'',
     rec_text = ''Reduce code complexity by refactoring large functions''\<rparr>"

definition test_info :: recommendation where
  "test_info = \<lparr>rec_type = ''info'', rec_text = ''Add more unit tests for better coverage''\<rparr>"

definition verdict_success :: recommendation where
  "verdict_success = \<lparr>rec_type = ''success'',
     rec_text = ''Excellent code quality! Keep up the good work''\<rparr>"

definition verdict_info :: recommendation where
  "verdict_info = \<lparr>rec_type = ''info'', rec_text = ''Good code quality with room for improvement''\<rparr>"

definition verdict_warning :: recommendation where
  "verdict_warning = \<lparr>rec_type = ''warning'',
     rec_text = ''Consider focusing on code quality improvements''\<rparr>"

text \<open>The recommendations, pushed one after the other on an array that starts empty.\<close>

definition gen_recommendations ::
  "(rat \<Rightarrow> rat) \<Rightarrow> analysis_entry list \<Rightarrow> file_record list \<Rightarrow> documentation \<Rightarrow> recommendation list" where
  "gen_recommendations fl an fs documentation =
     (let r0 = [];
          r1 = (if docCoverage fl an < 5 then push r0 doc_warning else r0);
          r2 = (if 7 < avgComplexity fl an then push r1 complexity_warning else r1);
          r3 = (if testCoverage fl an fs < 30 then push r2 test_info else r2)
      in if 8 \<le> overallScore fl an fs documentation then push r3 verdict_success
         else if 6 \<le> overallScore fl an fs documentation then push r3 verdict_info
         else push r3 verdict_warning)"

text \<open>
  \<open>languageStats\<close> is an object used as a dictionary from the language tag to its
  statistics; it is modelled by the list of its own properties, in insertion order. A
  tag that names a member of \<open>Object.prototype\<close> finds the inherited member, which is
  truthy: no own property is created for it and the three updates go to the inherited
  object, so the tag never appears among \<open>Object.keys(languageStats)\<close>.
\<close>

definition Object_prototype_keys :: "string list" where
  "Object_prototype_keys =
     [''constructor'', ''__defineGetter__'', ''__defineSetter__'', ''hasOwnProperty'',
      ''__lookupGetter__'', ''__lookupSetter__'', ''isPrototypeOf'', ''propertyIsEnumerable'',
      ''toString'', ''valueOf'', ''__proto__'', ''toLocaleString'']"

definition languageStats_step ::
  "(rat \<Rightarrow> rat) \<Rightarrow> (string \<times> language_stats) list \<Rightarrow> analysis_entry \<Rightarrow> (string \<times> language_stats) list" where
  "languageStats_step fl stats a =
     (if language a \<in> set Object_prototype_keys then stats
      else
        let st = (case map_of stats (language a) of
                    None \<Rightarrow> \<lparr>stat_count = 0, stat_avgComplexity = 0, stat_avgDoc = 0\<rparr>
                  | Some st \<Rightarrow> st)
        in AList.update (language a)
             \<lparr>stat_count = stat_count st + 1,
              stat_avgComplexity = fl (stat_avgComplexity st + num_or_zero (complexity_score a)),
              stat_avgDoc = fl (stat_avgDoc st + num_or_zero (documentation_quality a))\<rparr>
             stats)"

definition languageStats_finish :: "(rat \<Rightarrow> rat) \<Rightarrow> language_stats \<Rightarrow> language_stats" where
  "languageStats_finish fl st =
     st\<lparr>stat_avgComplexity := fl (stat_avgComplexity st / of_nat (stat_count st)),
        stat_avgDoc := fl (stat_avgDoc st / of_nat (stat_count st))\<rparr>"

definition gen_languageStats ::
  "(rat \<Rightarrow> rat) \<Rightarrow> analysis_entry list \<Rightarrow> (string \<times> language_stats) list" where
  "gen_languageStats fl an =
     map (\<lambda>(lang, st). (lang, languageStats_finish fl st)) (foldl (languageStats_step fl) [] an)"

text \<open>\<open>Math.round(x * 10) / 10\<close>\<close>

definition round1 :: "(rat \<Rightarrow> rat) \<Rightarrow> rat \<Rightarrow> rat" where
  "round1 fl x = fl (Math_round (fl (x * 10)) / 10)"

definition calculateMetrics :: "(rat \<Rightarrow> rat) \<Rightarrow> analysis_data \<Rightarrow> documentation \<Rightarrow> quality_metrics" where
  "calculateMetrics fl ad documentation =
     (let an = analysis_of ad; fs = files_of ad
      in \<lparr>documentation_coverage = round1 fl (docCoverage fl an),
          code_complexity = round1 fl (avgComplexity fl an),
          maintainability_score = round1 fl (maintainability fl an),
          test_coverage = round1 fl (testCoverage fl an fs),
          overall_score = round1 fl (overallScore fl an fs documentation),
          recommendations = gen_recommendations fl an fs documentation,
          languageStats = gen_languageStats fl an,
          totalFiles = length fs,
          analyzedFiles = length an\<rparr>)"

text \<open>The effect runs \<open>calculateMetrics\<close> only when both properties are present.\<close>

definition QualityScore_metrics ::
  "(rat \<Rightarrow> rat) \<Rightarrow> analysis_data option \<Rightarrow> documentation option \<Rightarrow> quality_metrics option" where
  "QualityScore_metrics fl ad_opt documentation =
     (case (ad_opt, documentation) of
        (Some ad, Some d) \<Rightarrow> Some (calculateMetrics fl ad d)
      | _ \<Rightarrow> None)"

text \<open>The analysis with no entries and no files.\<close>

definition empty_data :: "documentation option \<Rightarrow> analysis_data" where
  "empty_data d = \<lparr>analysis = Some [], files = Some [], doc = d\<rparr>"

text \<open>
  An entry with each missing score written out as the number \<open>0\<close>; a score that is
  present is kept.
\<close>

definition zero_if_missing :: "rat option \<Rightarrow> rat option" where
  "zero_if_missing v = (case v of None \<Rightarrow> Some 0 | Some x \<Rightarrow> Some x)"

definition fill_scores :: "analysis_entry \<Rightarrow> analysis_entry" where
  "fill_scores a = a\<lparr>complexity_score := zero_if_missing (complexity_score a),
     documentation_quality := zero_if_missing (documentation_quality a)\<rparr>"

text \<open>An analysis of one file whose two scores are missing.\<close>

definition unscored_data :: analysis_data where
  "unscored_data = \<lparr>analysis = Some [\<lparr>file_path = ''a.js'', language = ''js'',
       complexity_score = None, documentation_quality = None\<rparr>],
     files = Some [\<lparr>path = ''a.js'', content = '''', file_language = ''js'', file_size = 0\<rparr>],
     doc = None\<rparr>"

text \<open>The two scores of an entry as the sums read them.\<close>

definition cscore :: "analysis_entry \<Rightarrow> rat" where
  "cscore a = num_or_zero (complexity_score a)"

definition dscore :: "analysis_entry \<Rightarrow> rat" where
  "dscore a = num_or_zero (documentation_quality a)"

text \<open>
  The rounding \<open>fl\<close> leaves every sum of numbers taken from \<open>S\<close> as it is: no addition of
  such numbers, in any order, rounds.
\<close>

definition exact_sums :: "(rat \<Rightarrow> rat) \<Rightarrow> rat multiset \<Rightarrow> bool" where
  "exact_sums fl S = (\<forall>A. A \<subseteq># S \<longrightarrow> fl (sum_mset A) = sum_mset A)"

text \<open>The result of \<open>calculateMetrics\<close> with \<open>languageStats\<close> read as a dictionary.\<close>

definition metrics_view ::
  "quality_metrics \<Rightarrow> rat \<times> rat \<times> rat \<times> rat \<times> rat \<times> recommendation list
     \<times> (string \<rightharpoonup> language_stats) \<times> nat \<times> nat" where
  "metrics_view m = (documentation_coverage m, code_complexity m, maintainability_score m,
     test_coverage m, overall_score m, recommendations m, map_of (languageStats m),
     totalFiles m, analyzedFiles m)"

text \<open>An entry with both scores present.\<close>

definition entry :: "string \<Rightarrow> string \<Rightarrow> rat \<Rightarrow> rat \<Rightarrow> analysis_entry" where
  "entry p l c d = \<lparr>file_path = p, language = l, complexity_score = Some c, documentation_quality = Some d\<rparr>"

text \<open>Three files of one language, of complexity 0.1, 0.2 and 0.3.\<close>

definition js_abc :: "analysis_entry list" where
  "js_abc = [entry ''a.js'' ''js'' (double (1 / 10)) 5, entry ''b.js'' ''js'' (double (2 / 10)) 5,
     entry ''c.js'' ''js'' (double (3 / 10)) 5]"

text \<open>Two files of two languages with whole-numbered scores.\<close>

definition ab_data :: analysis_data where
  "ab_data = \<lparr>analysis = Some [entry ''a.js'' ''js'' 1 2, entry ''b.py'' ''py'' 3 4],
     files = Some [], doc = None\<rparr>"

section \<open>services/api: validateGitHubUrl and extractRepoInfo\<close>

text \<open>
  The three patterns are anchored at both ends and carry no flag, so \<open>pattern.test(s)\<close>
  asks whether the whole of \<open>s\<close> matches. A pattern is written as a regular expression
  and matched by derivatives.
\<close>

datatype rexp = Zero | One | Sym char | Cls "char list" | Seq rexp rexp | Alt rexp rexp | Star rexp

fun nullable :: "rexp \<Rightarrow> bool" where
  "nullable Zero = False"
| "nullable One = True"
| "nullable (Sym c) = False"
| "nullable (Cls cs) = False"
| "nullable (Seq r s) = (nullable r \<and> nullable s)"
| "nullable (Alt r s) = (nullable r \<or> nullable s)"
| "nullable (Star r) = True"

fun deriv :: "char \<Rightarrow> rexp \<Rightarrow> rexp" where
  "deriv c Zero = Zero"
| "deriv c One = Zero"
| "deriv c (Sym d) = (if c = d then One else Zero)"
| "deriv c (Cls cs) = (if c \<in> set cs then One else Zero)"
| "deriv c (Seq r s) =
     (if nullable r then Alt (Seq (deriv c r) s) (deriv c s) else Seq (deriv c r) s)"
| "deriv c (Alt r s) = Alt (deriv c r) (deriv c s)"
| "deriv c (Star r) = Seq (deriv c r) (Star r)"

definition re_test :: "rexp \<Rightarrow> string \<Rightarrow> bool" where
  "re_test r s = nullable (foldl (\<lambda>r c. deriv c r) r s)"

text \<open>
  The strings a regular expression stands for; \<open>re_test\<close> decides membership
  (\<open>re_test_lang\<close> below).
\<close>

inductive_set star :: "string set \<Rightarrow> string set" for A :: "string set" where
  star_empty: "[] \<in> star A"
| star_step: "u \<in> A \<Longrightarrow> v \<in> star A \<Longrightarrow> u @ v \<in> star A"

fun lang :: "rexp \<Rightarrow> string set" where
  "lang Zero = {}"
| "lang One = {[]}"
| "lang (Sym c) = {[c]}"
| "lang (Cls cs) = {[c] | c. c \<in> set cs}"
| "lang (Seq r s) = {u @ v | u v. u \<in> lang r \<and> v \<in> lang s}"
| "lang (Alt r s) = lang r \<union> lang s"
| "lang (Star r) = star (lang r)"

text \<open>A literal text, \<open>r+\<close> and \<open>r?\<close>.\<close>

definition lit :: "string \<Rightarrow> rexp" where
  "lit s = foldr (\<lambda>c r. Seq (Sym c) r) s One"

definition some :: "rexp \<Rightarrow> rexp" where
  "some r = Seq r (Star r)"

definition opt :: "rexp \<Rightarrow> rexp" where
  "opt r = Alt r One"

text \<open>The class \<open>[a-zA-Z0-9_.-]\<close>\<close>

definition name_chars :: "char list" where
  "name_chars = ''abcdefghijklmnopqrstuvwxyzABCDEFGHIJKLMNOPQRSTUVWXYZ0123456789_.-''"

definition githubPatterns :: "rexp list" where
  "githubPatterns =
     [Seq (lit ''https://github.com/'')
        (Seq (some (Cls name_chars)) (Seq (Sym CHR ''/'') (Seq (some (Cls name_chars)) (opt (Sym CHR ''/''))))),
      Seq (lit ''git@github.com:'')
        (Seq (some (Cls name_chars)) (Seq (Sym CHR ''/'') (Seq (some (Cls name_chars)) (lit ''.git'')))),
      Seq (lit ''https://github.com/'')
        (Seq (some (Cls name_chars)) (Seq (Sym CHR ''/'') (Seq (some (Cls name_chars)) (lit ''.git''))))]"

text \<open>
  \<open>url.trim()\<close> on a string of ASCII characters: the white space and line terminators
  below 128 are tab, line feed, vertical tab, form feed, carriage return and space.
\<close>

definition is_space :: "char \<Rightarrow> bool" where
  "is_space c = ((of_char c :: nat) \<in> {9, 10, 11, 12, 13, 32})"

definition trim :: "string \<Rightarrow> string" where
  "trim s = rev (dropWhile is_space (rev (dropWhile is_space s)))"

definition validateGitHubUrl :: "string \<Rightarrow> bool" where
  "validateGitHubUrl url = list_ex (\<lambda>pattern. re_test pattern (trim url)) githubPatterns"

text \<open>
  \<open>url.match(/github\.com\/([^\/]+)\/([^\/\.]+)/)\<close>: the leftmost place where
  \<open>github.com/\<close> is followed by a non-empty run without a slash, a slash, and a non-empty
  run without slash and dot; both runs are as long as they can be.
\<close>

definition match_here :: "string \<Rightarrow> (string \<times> string) option" where
  "match_here s =
     (if prefix ''github.com/'' s then
        let r = drop (length ''github.com/'') s;
            owner = takeWhile (\<lambda>c. c \<noteq> CHR ''/'') r;
            r' = dropWhile (\<lambda>c. c \<noteq> CHR ''/'') r;
            repo = takeWhile (\<lambda>c. c \<noteq> CHR ''/'' \<and> c \<noteq> CHR ''.'') (tl r')
        in if owner \<noteq> [] \<and> r' \<noteq> [] \<and> repo \<noteq> [] then Some (owner, repo) else None
      else None)"

fun extractRepoInfo :: "string \<Rightarrow> (string \<times> string) option" where
  "extractRepoInfo [] = None"
| "extractRepoInfo (c # cs) =
     (case match_here (c # cs) of Some m \<Rightarrow> Some m | None \<Rightarrow> extractRepoInfo cs)"

section \<open>RepoInput: the submission form\<close>

text \<open>
  The state of the form and its handlers. What the browser itself does with the fields
  (the constraint validation of the \<open>url\<close> input, disabled controls) is not part of the
  model: \<open>handleSubmit\<close> is modelled as it runs once it is called.
\<close>

record repo_input =
  repoUrl :: string
  branch_field :: string
  isValid :: bool
  showValidation :: bool

definition repo_input_init :: repo_input where
  "repo_input_init = \<lparr>repoUrl = '''', branch_field = ''main'', isValid = False, showValidation = False\<rparr>"

definition handleUrlChange :: "string \<Rightarrow> repo_input \<Rightarrow> repo_input" where
  "handleUrlChange url s = s\<lparr>repoUrl := url, isValid := validateGitHubUrl url, showValidation := (length url > 0)\<rparr>"

definition exampleRepos :: "string list" where
  "exampleRepos = [''https://github.com/microsoft/vscode'', ''https://github.com/facebook/react'',
     ''https://github.com/tensorflow/tensorflow'', ''https://github.com/pallets/flask'']"

definition handleExampleClick :: "string \<Rightarrow> repo_input \<Rightarrow> repo_input" where
  "handleExampleClick url s = s\<lparr>repoUrl := url, isValid := True, showValidation := True\<rparr>"

definition setBranch :: "string \<Rightarrow> repo_input \<Rightarrow> repo_input" where
  "setBranch b s = s\<lparr>branch_field := b\<rparr>"

text \<open>
  \<open>handleSubmit\<close>: the request handed to \<open>onAnalyze\<close>, or nothing. It does not change
  the state of the form.
\<close>

definition handleSubmit :: "repo_input \<Rightarrow> bool \<Rightarrow> repo_request option" where
  "handleSubmit s loading =
     (if isValid s \<and> \<not> loading then
        Some \<lparr>repo_url = trim (repoUrl s),
              branch = (if branch_field s = [] then ''main'' else branch_field s),
              repo_name = (case extractRepoInfo (repoUrl s) of
                             Some (owner, repo) \<Rightarrow> owner @ ''/'' @ repo
                           | None \<Rightarrow> ''unknown'')\<rparr>
      else None)"

text \<open>
  What the user can do to the form: type into the URL field, type into the branch
  field, click one of the example buttons (the button \<open>i\<close> of \<open>exampleRepos.map\<close>).
\<close>

datatype input_event = UrlChange string | BranchChange string | ExampleClick nat

fun input_step :: "repo_input \<Rightarrow> input_event \<Rightarrow> repo_input" where
  "input_step s (UrlChange url) = handleUrlChange url s"
| "input_step s (BranchChange b) = setBranch b s"
| "input_step s (ExampleClick i) =
     (if i < length exampleRepos then handleExampleClick (exampleRepos ! i) s else s)"

definition input_run :: "input_event list \<Rightarrow> repo_input" where
  "input_run evs = foldl input_step repo_input_init evs"

text \<open>
  Submitting the form inside the application, where \<open>onAnalyze\<close> is \<open>handleAnalyzeRepo\<close>
  and \<open>isLoading\<close> is the flag of the application: the state of the application up to
  the \<open>await\<close>, and the request posted to \<open>/analyze-repo\<close>, if any.
\<close>

definition submit :: "repo_input \<Rightarrow> app_state \<Rightarrow> app_state \<times> repo_request option" where
  "submit s app =
     (case handleSubmit s (isLoading app) of
        None \<Rightarrow> (app, None)
      | Some rq \<Rightarrow> (handleAnalyzeRepo_begin rq app, Some rq))"

section \<open>CodeExplorer: buildFileTree\<close>

text \<open>
  A node of the tree is an object with \<open>type: "file"\<close> or \<open>type: "folder"\<close>. A file node
  copies the fields of the file and adds \<open>name\<close>; a folder node has a name and the
  object \<open>children\<close>, a dictionary from segment to node. \<open>children\<close> is modelled by the
  list of its own properties in insertion order: \<open>children[part]\<close> is \<open>map_of\<close>, the
  assignment \<open>children[part] = v\<close> is \<open>AList.update\<close>. Segments that name a member of
  \<open>Object.prototype\<close> (see \<open>Object_prototype_keys\<close>) read and write through the prototype
  chain in the source and are outside this model of \<open>children\<close>.
\<close>

record file_node = file_record +
  node_name :: string

datatype tree_node = FileNode file_node | FolderNode string "(string \<times> tree_node) list"

datatype js_exception = TypeError

text \<open>\<open>path.split("/")\<close>: the segments between the slashes, at least one.\<close>

fun split_slash :: "string \<Rightarrow> string list" where
  "split_slash [] = [[]]"
| "split_slash (c # cs) =
     (if c = CHR ''/'' then [] # split_slash cs
      else (case split_slash cs of [] \<Rightarrow> [[c]] | p # ps \<Rightarrow> (c # p) # ps))"
  \<comment> \<open>the result is never empty, so the first case does not arise\<close>

definition new_file_node :: "string \<Rightarrow> file_record \<Rightarrow> file_node" where
  "new_file_node part file = file_record.extend file \<lparr>node_name = part\<rparr>"

text \<open>
  The inner \<open>parts.forEach\<close>, from the node \<open>current\<close> on with the parts still to visit.
  Reading or writing \<open>current.children[part]\<close> when \<open>current\<close> is a file node, which has
  no \<open>children\<close>, throws a \<open>TypeError\<close>. The source updates the nodes in place; the model
  returns the node rebuilt.
\<close>

fun place :: "file_record \<Rightarrow> string list \<Rightarrow> tree_node \<Rightarrow> js_exception + tree_node" where
  "place file [] current = Inr current"
| "place file (part # rest) (FileNode f) = Inl TypeError"
| "place file [part] (FolderNode n children) =
     Inr (FolderNode n (AList.update part (FileNode (new_file_node part file)) children))"
| "place file (part # part' # rest) (FolderNode n children) =
     (let child = (case map_of children part of None \<Rightarrow> FolderNode part [] | Some c \<Rightarrow> c)
      in case place file (part' # rest) child of
           Inl e \<Rightarrow> Inl e
         | Inr child' \<Rightarrow> Inr (FolderNode n (AList.update part child' children)))"

fun place_all :: "file_record list \<Rightarrow> tree_node \<Rightarrow> js_exception + tree_node" where
  "place_all [] tree = Inr tree"
| "place_all (file # rest) tree =
     (case place file (split_slash (path file)) tree of
        Inl e \<Rightarrow> Inl e
      | Inr tree' \<Rightarrow> place_all rest tree')"

definition buildFileTree :: "file_record list \<Rightarrow> js_exception + tree_node" where
  "buildFileTree fs = place_all fs (FolderNode ''root'' [])"

text \<open>The file nodes and the folder nodes of a tree, counted.\<close>

fun leaves :: "tree_node \<Rightarrow> nat" where
  "leaves (FileNode f) = 1"
| "leaves (FolderNode n children) = sum_list (map (\<lambda>kc. leaves (snd kc)) children)"

fun folders :: "tree_node \<Rightarrow> nat" where
  "folders (FileNode f) = 0"
| "folders (FolderNode n children) = 1 + sum_list (map (\<lambda>kc. folders (snd kc)) children)"

text \<open>The segments of a file, and the proper prefixes of its path that are not empty.\<close>

definition parts :: "file_record \<Rightarrow> string list" where
  "parts file = split_slash (path file)"

definition proper_prefixes :: "file_record list \<Rightarrow> string list set" where
  "proper_prefixes fs = {q. q \<noteq> [] \<and> (\<exists>file \<in> set fs. strict_prefix q (parts file))}"

text \<open>No segment of any path names a member of \<open>Object.prototype\<close>.\<close>

definition plain_segments :: "file_record list \<Rightarrow> bool" where
  "plain_segments fs = (\<forall>file \<in> set fs. \<forall>part \<in> set (parts file). part \<notin> set Object_prototype_keys)"

text \<open>No path is the beginning of another path, segment by segment.\<close>

definition prefix_free :: "file_record list \<Rightarrow> bool" where
  "prefix_free fs = (\<forall>f \<in> set fs. \<forall>g \<in> set fs. \<not> strict_prefix (parts f) (parts g))"

definition mk_file :: "string \<Rightarrow> file_record" where
  "mk_file p = \<lparr>path = p, content = '''', file_language = ''javascript'', file_size = 0\<rparr>"

text \<open>
  The paths of the file nodes and of the folder nodes of a tree, each as the list of
  segments that leads from the root to the node; the root folder has the empty path.
\<close>

fun file_paths :: "tree_node \<Rightarrow> string list list" where
  "file_paths (FileNode f) = [[]]"
| "file_paths (FolderNode n children) =
     concat (map (\<lambda>kc. map ((#) (fst kc)) (file_paths (snd kc))) children)"

fun folder_paths :: "tree_node \<Rightarrow> string list list" where
  "folder_paths (FileNode f) = []"
| "folder_paths (FolderNode n children) =
     [] # concat (map (\<lambda>kc. map ((#) (fst kc)) (folder_paths (snd kc))) children)"

text \<open>No folder has two children of the same name.\<close>

fun wf_tree :: "tree_node \<Rightarrow> bool" where
  "wf_tree (FileNode f) = True"
| "wf_tree (FolderNode n children) =
     (distinct (map fst children) \<and> (\<forall>kc \<in> set children. wf_tree (snd kc)))"

text \<open>The two files of the example.\<close>

definition two_files :: "file_record list" where
  "two_files = [mk_file ''src/index.js'', mk_file ''src/utils/math.js'']"

section \<open>CodeExplorer: selection and explanation\<close>

record explanation_payload =
  explanation_text :: string
  key_concepts :: "string list"
  best_practices :: "string list"
  potential_issues :: "string list"

text \<open>The body of the request posted to \<open>/explain-code\<close>.\<close>

record explain_request =
  req_file_path :: string
  code_snippet :: string
  req_language :: string
  req_context :: string

text \<open>
  The state of the component that selection and explanation use. \<open>pending\<close> is not a
  variable of the source: it holds the requests whose \<open>await\<close> has not resumed yet.
\<close>

record explorer_state =
  selectedFile :: "file_node option"
  explanation :: "explanation_payload option"
  isExplaining :: bool
  selectedCode :: string
  pending :: "explain_request list"

definition explorer_init :: explorer_state where
  "explorer_init = \<lparr>selectedFile = None, explanation = None, isExplaining = False,
     selectedCode = '''', pending = []\<rparr>"

definition selectFile :: "file_node \<Rightarrow> explorer_state \<Rightarrow> explorer_state" where
  "selectFile file s = s\<lparr>selectedFile := Some file, explanation := None, selectedCode := ''''\<rparr>"

text \<open>The selection of the editor: \<open>Some\<close> text when it is not empty.\<close>

definition handleEditorSelectionChange :: "string option \<Rightarrow> explorer_state \<Rightarrow> explorer_state" where
  "handleEditorSelectionChange sel s =
     (case sel of Some selectedText \<Rightarrow> s\<lparr>selectedCode := selectedText\<rparr>
      | None \<Rightarrow> s\<lparr>selectedCode := ''''\<rparr>)"

text \<open>\<open>explainCode\<close> up to the \<open>await\<close>: the guard, the flag, the request.\<close>

definition explainCode_begin :: "explorer_state \<Rightarrow> explorer_state" where
  "explainCode_begin s =
     (case selectedFile s of
        None \<Rightarrow> s
      | Some file \<Rightarrow>
          if selectedCode s = [] then s
          else s\<lparr>isExplaining := True,
                 pending := pending s @
                   [\<lparr>req_file_path = path file, code_snippet = selectedCode s,
                     req_language = file_language file,
                     req_context = ''From file '' @ path file @ '' in repository analysis''\<rparr>]\<rparr>)"

definition fallback_explanation :: explanation_payload where
  "fallback_explanation = \<lparr>explanation_text = ''Failed to generate explanation. Please try again.'',
     key_concepts = [], best_practices = [], potential_issues = []\<rparr>"

text \<open>
  \<open>explainCode\<close> from the settled promise on: \<open>setExplanation\<close> with the response or, in
  the \<open>catch\<close> block, with the fallback, then \<open>setIsExplaining(false)\<close>. Nothing compares
  the response with the file selected now.
\<close>

definition explainCode_resume :: "js_error + explanation_payload \<Rightarrow> explorer_state \<Rightarrow> explorer_state" where
  "explainCode_resume outcome s =
     (case outcome of
        Inr answer \<Rightarrow> s\<lparr>explanation := Some answer, isExplaining := False\<rparr>
      | Inl e \<Rightarrow> s\<lparr>explanation := Some fallback_explanation, isExplaining := False\<rparr>)"

text \<open>
  The events of the component: a click on a file of the tree, a change of the selection
  in the editor, a click on the button (shown when a file and some code are selected,
  disabled while \<open>isExplaining\<close>), and the arrival of the answer to the pending request
  number \<open>i\<close>.
\<close>

datatype explorer_event =
  SelectFile file_node
| EditorSelection "string option"
| ClickExplain
| Respond nat "js_error + explanation_payload"

fun explorer_step :: "explorer_state \<Rightarrow> explorer_event \<Rightarrow> explorer_state" where
  "explorer_step s (SelectFile file) = selectFile file s"
| "explorer_step s (EditorSelection sel) = handleEditorSelectionChange sel s"
| "explorer_step s ClickExplain =
     (if selectedFile s \<noteq> None \<and> selectedCode s \<noteq> [] \<and> \<not> isExplaining s
      then explainCode_begin s else s)"
| "explorer_step s (Respond i outcome) =
     (if i < length (pending s)
      then explainCode_resume outcome (s\<lparr>pending := take i (pending s) @ drop (Suc i) (pending s)\<rparr>)
      else s)"

definition explorer_run :: "explorer_state \<Rightarrow> explorer_event list \<Rightarrow> explorer_state" where
  "explorer_run s evs = foldl explorer_step s evs"

text \<open>Two files and an answer of the explanation service, for the scenario.\<close>

definition file_A :: file_node where
  "file_A = new_file_node ''a.js'' (mk_file ''src/a.js'')"

definition file_B :: file_node where
  "file_B = new_file_node ''b.js'' (mk_file ''src/b.js'')"

definition answer_A :: explanation_payload where
  "answer_A = \<lparr>explanation_text = ''about a.js'', key_concepts = [], best_practices = [],
     potential_issues = []\<rparr>"

text \<open>
  The scenario: select \<open>A\<close>, select some code in it, ask for the explanation, select \<open>B\<close>.
\<close>

definition scenario :: "file_node \<Rightarrow> string \<Rightarrow> file_node \<Rightarrow> explorer_event list" where
  "scenario A sel B = [SelectFile A, EditorSelection (Some sel), ClickExplain, SelectFile B]"

section \<open>Error messages of a failed submission\<close>

text \<open>
  C3. A submission the backend answers with an error status and no detail ends in the
  failed state (\<open>error\<close> set, \<open>isLoading\<close> cleared), but the message shown is the fallback
  of \<open>analyzeRepository\<close> whatever the status is, also for 422, 404 and 500: the error
  rethrown by \<open>analyzeRepository\<close> has lost the response, so the texts that \<open>formatError\<close>
  holds for these statuses are never shown.
\<close>

theorem C3_status_message_not_mapped:
  "error (handleAnalyzeRepo rq (Inl (status_error st)) s) = Some ''Failed to analyze repository''
   \<and> isLoading (handleAnalyzeRepo rq (Inl (status_error st)) s) = False
   \<and> formatError (status_error 422) = ''Invalid input data. Please check your repository URL.''
   \<and> formatError (status_error 404) = ''Repository not found. Please check the URL and try again.''
   \<and> formatError (status_error 500) = ''Server error. Please try again later.''"
  by (simp add: handleAnalyzeRepo_def handleAnalyzeRepo_resume_def handleAnalyzeRepo_begin_def
      analyzeRepository_def formatError_def new_Error_def or_else_def response_detail_def
      response_status_def status_error_def)

section \<open>Metrics of the empty analysis\<close>

lemma maintainability_empty: "maintainability double [] = 5"
  by (simp add: maintainability_def docCoverage_def avgComplexity_def) code_simp

lemma weightedScore_empty: "weightedScore double [] [] = 4"
  unfolding weightedScore_def maintainability_def docCoverage_def avgComplexity_def testCoverage_def
  by code_simp

lemma round1_double_values: "round1 double 5 = 5" "round1 double 4 = 4" "round1 double 0 = 0"
  by code_simp+

lemma calculateMetrics_empty:
  "calculateMetrics double (empty_data dd) \<lparr>quality_score = None\<rparr> =
   \<lparr>documentation_coverage = 0, code_complexity = 0, maintainability_score = 5,
    test_coverage = 0, overall_score = 4,
    recommendations = [doc_warning, test_info, verdict_warning], languageStats = [],
    totalFiles = 0, analyzedFiles = 0\<rparr>"
  by (simp add: calculateMetrics_def empty_data_def analysis_of_def files_of_def
        maintainability_empty weightedScore_empty round1_double_values overallScore_def
        gen_recommendations_def gen_languageStats_def push_def)
     (simp add: docCoverage_def avgComplexity_def testCoverage_def round1_double_values)

text \<open>
  A provided score of 0 is falsy for \<open>||\<close>: the overall score of the empty analysis is
  then the weighted sum.
\<close>

lemma calculateMetrics_empty_zero_score:
  "overall_score (calculateMetrics double (empty_data dd) \<lparr>quality_score = Some 0\<rparr>) = 4"
  by (simp add: calculateMetrics_def empty_data_def analysis_of_def files_of_def
        weightedScore_empty round1_double_values overallScore_def)

text \<open>
  C2, as the code has it. On an empty analysis and no files, with no score from the
  backend, the means and the test coverage are 0, but the maintainability is
  \<open>(0 + (10 - 0)) / 2 = 5\<close> and the weighted overall score is \<open>0.3 * 10 + 0.2 * 5 = 4\<close>;
  the recommendations are the documentation warning, the test note and the warning
  verdict.
\<close>

theorem C2_empty_metrics:
  "documentation_coverage (calculateMetrics double (empty_data dd) \<lparr>quality_score = None\<rparr>) = 0
   \<and> code_complexity (calculateMetrics double (empty_data dd) \<lparr>quality_score = None\<rparr>) = 0
   \<and> test_coverage (calculateMetrics double (empty_data dd) \<lparr>quality_score = None\<rparr>) = 0
   \<and> maintainability_score (calculateMetrics double (empty_data dd) \<lparr>quality_score = None\<rparr>) = 5
   \<and> overall_score (calculateMetrics double (empty_data dd) \<lparr>quality_score = None\<rparr>) = 4
   \<and> recommendations (calculateMetrics double (empty_data dd) \<lparr>quality_score = None\<rparr>)
       = [doc_warning, test_info, verdict_warning]"
  by (simp add: calculateMetrics_empty)

text \<open>
  C2, as the claim states it, fails: the maintainability and the overall score of the
  empty analysis are not 0.
\<close>

theorem C2_empty_metrics_not_all_zero:
  "\<not> (documentation_coverage (calculateMetrics double (empty_data None) \<lparr>quality_score = None\<rparr>) = 0
     \<and> code_complexity (calculateMetrics double (empty_data None) \<lparr>quality_score = None\<rparr>) = 0
     \<and> maintainability_score (calculateMetrics double (empty_data None) \<lparr>quality_score = None\<rparr>) = 0
     \<and> test_coverage (calculateMetrics double (empty_data None) \<lparr>quality_score = None\<rparr>) = 0
     \<and> overall_score (calculateMetrics double (empty_data None) \<lparr>quality_score = None\<rparr>) = 0
     \<and> recommendations (calculateMetrics double (empty_data None) \<lparr>quality_score = None\<rparr>) \<noteq> []
     \<and> verdict_warning \<in> set (recommendations (calculateMetrics double (empty_data None) \<lparr>quality_score = None\<rparr>)))"
  by (simp add: calculateMetrics_empty)

section \<open>The overall score\<close>

lemma round1_double_seven_and_a_quarter:
  "round1 double (29 / 4) = double (73 / 10)" "double (73 / 10) \<noteq> 29 / 4"
  by code_simp+

text \<open>
  C5, as the code has it. A score of the backend that is present and not 0 is the
  overall score, rounded to one decimal; when no score is present, the overall score is
  the weighted sum of the unrounded components, rounded to one decimal.
\<close>

theorem C5_overall_score_precedence:
  "(quality_score d = Some q \<and> q \<noteq> 0 \<longrightarrow> overall_score (calculateMetrics fl ad d) = round1 fl q)
   \<and> (quality_score d = None \<longrightarrow>
        overall_score (calculateMetrics fl ad d) =
          round1 fl
            (fl (fl (fl (fl (docCoverage fl (analysis_of ad) * fl (3 / 10))
                       + fl (fl (10 - avgComplexity fl (analysis_of ad)) * fl (3 / 10)))
                   + fl (maintainability fl (analysis_of ad) * fl (2 / 10)))
               + fl (fl (testCoverage fl (analysis_of ad) (files_of ad) / 10) * fl (2 / 10)))))"
  by (auto simp add: calculateMetrics_def overallScore_def weightedScore_def Let_def)

theorem C5_overall_score_precedence_witness:
  "quality_score \<lparr>quality_score = Some 5\<rparr> = Some 5 \<and> (5 :: rat) \<noteq> 0
   \<and> overall_score (calculateMetrics double (empty_data None) \<lparr>quality_score = Some 5\<rparr>) = 5
   \<and> quality_score \<lparr>quality_score = None\<rparr> = None
   \<and> overall_score (calculateMetrics double (empty_data None) \<lparr>quality_score = None\<rparr>) = 4"
  using C5_overall_score_precedence [of "\<lparr>quality_score = Some 5\<rparr>" 5 double "empty_data None"]
    C5_overall_score_precedence [of "\<lparr>quality_score = None\<rparr>" 0 double "empty_data None"]
  by (simp add: round1_double_values calculateMetrics_empty)

text \<open>
  C5, as the claim states it, fails because the overall score is rounded to one
  decimal: for the provided score 7.25 the result is 7.3 (\<open>Math.round(72.5)\<close> is 73), not
  exactly the provided value.
\<close>

theorem C5_provided_score_is_rounded:
  "overall_score (calculateMetrics double (empty_data None) \<lparr>quality_score = Some (29 / 4)\<rparr>)
     = double (73 / 10)
   \<and> overall_score (calculateMetrics double (empty_data None) \<lparr>quality_score = Some (29 / 4)\<rparr>)
     \<noteq> 29 / 4"
proof -
  have e: "overall_score (calculateMetrics double (empty_data None) \<lparr>quality_score = Some (29 / 4)\<rparr>)
      = double (73 / 10)"
    by (simp add: calculateMetrics_def Let_def overallScore_def round1_double_seven_and_a_quarter(1))
  show ?thesis
    unfolding e using round1_double_seven_and_a_quarter(2) by blast
qed

section \<open>The recommendations\<close>

text \<open>
  C8. The recommendations are the domain rules that trigger, in the order documentation
  warning (mean documentation quality below 5), complexity warning (mean complexity above
  7), test note (test coverage below 30), followed by one verdict, which is always there
  and always last: success from an overall score of 8, else the note from 6, else the
  warning. The rules read the unrounded values.
\<close>

theorem C8_recommendation_order:
  "recommendations (calculateMetrics fl ad d) =
     (if docCoverage fl (analysis_of ad) < 5 then [doc_warning] else [])
     @ (if 7 < avgComplexity fl (analysis_of ad) then [complexity_warning] else [])
     @ (if testCoverage fl (analysis_of ad) (files_of ad) < 30 then [test_info] else [])
     @ [if 8 \<le> overallScore fl (analysis_of ad) (files_of ad) d then verdict_success
        else if 6 \<le> overallScore fl (analysis_of ad) (files_of ad) d then verdict_info
        else verdict_warning]"
  by (simp add: calculateMetrics_def gen_recommendations_def push_def Let_def)

section \<open>Missing scores\<close>

lemma num_or_zero_fill [simp]:
  "num_or_zero (complexity_score (fill_scores a)) = num_or_zero (complexity_score a)"
  "num_or_zero (documentation_quality (fill_scores a)) = num_or_zero (documentation_quality a)"
  "language (fill_scores a) = language a"
  "file_path (fill_scores a) = file_path a"
  by (simp_all add: fill_scores_def zero_if_missing_def num_or_zero_def split: option.splits)

lemma languageStats_step_fill: "languageStats_step fl st (fill_scores a) = languageStats_step fl st a"
  by (simp add: languageStats_step_def)

lemma foldl_languageStats_fill:
  "foldl (languageStats_step fl) st (map fill_scores an) = foldl (languageStats_step fl) st an"
  by (induction an arbitrary: st) (simp_all add: languageStats_step_fill)

lemma docCoverage_fill: "docCoverage fl (map fill_scores an) = docCoverage fl an"
  by (simp add: docCoverage_def o_def)

lemma avgComplexity_fill: "avgComplexity fl (map fill_scores an) = avgComplexity fl an"
  by (simp add: avgComplexity_def o_def)

lemma testFiles_fill: "testFiles (map fill_scores an) = testFiles an"
  by (simp add: testFiles_def filter_map o_def)

lemma maintainability_fill: "maintainability fl (map fill_scores an) = maintainability fl an"
  by (simp add: maintainability_def docCoverage_fill avgComplexity_fill)

lemma testCoverage_fill: "testCoverage fl (map fill_scores an) fs = testCoverage fl an fs"
  by (simp add: testCoverage_def testFiles_fill)

lemma weightedScore_fill: "weightedScore fl (map fill_scores an) fs = weightedScore fl an fs"
  by (simp add: weightedScore_def docCoverage_fill avgComplexity_fill maintainability_fill
      testCoverage_fill)

lemma overallScore_fill: "overallScore fl (map fill_scores an) fs d = overallScore fl an fs d"
  by (simp add: overallScore_def weightedScore_fill split: option.splits)

lemma gen_recommendations_fill:
  "gen_recommendations fl (map fill_scores an) fs d = gen_recommendations fl an fs d"
  by (simp only: gen_recommendations_def docCoverage_fill avgComplexity_fill testCoverage_fill
      overallScore_fill)

lemma gen_languageStats_fill: "gen_languageStats fl (map fill_scores an) = gen_languageStats fl an"
  by (simp only: gen_languageStats_def foldl_languageStats_fill)

lemma analysis_of_update [simp]:
  "analysis_of (ad\<lparr>analysis := Some an\<rparr>) = an"
  "files_of (ad\<lparr>analysis := x\<rparr>) = files_of ad"
  by (simp_all add: analysis_of_def files_of_def)

lemma double_zero [simp]: "double 0 = 0"
  by (simp add: double_def)

lemma unscored_means:
  "docCoverage double (analysis_of unscored_data) = 0"
  "avgComplexity double (analysis_of unscored_data) = 0"
  by (simp_all add: docCoverage_def avgComplexity_def analysis_of_def unscored_data_def
      reduce_add_def num_or_zero_def)

lemma unscored_languageStats:
  "gen_languageStats double (analysis_of unscored_data)
     = [(''js'', \<lparr>stat_count = 1, stat_avgComplexity = 0, stat_avgDoc = 0\<rparr>)]"
  by (simp add: gen_languageStats_def languageStats_step_def languageStats_finish_def
      analysis_of_def unscored_data_def num_or_zero_def Object_prototype_keys_def)

text \<open>
  C10. An entry whose \<open>complexity_score\<close> or \<open>documentation_quality\<close> is missing counts
  as an entry with the score 0: writing the number 0 into every missing score of the
  analysis changes nothing in the result of \<open>calculateMetrics\<close>, neither the scores nor
  the recommendations nor the statistics by language, and the result is a value for
  every analysis. For one file with both scores missing the two means are 0 and the
  statistics of its language are one file with both means 0.
\<close>

theorem C10_missing_scores_default_zero:
  "calculateMetrics fl (ad\<lparr>analysis := Some (map fill_scores (analysis_of ad))\<rparr>) d
     = calculateMetrics fl ad d
   \<and> documentation_coverage (calculateMetrics double unscored_data d) = 0
   \<and> code_complexity (calculateMetrics double unscored_data d) = 0
   \<and> languageStats (calculateMetrics double unscored_data d)
       = [(''js'', \<lparr>stat_count = 1, stat_avgComplexity = 0, stat_avgDoc = 0\<rparr>)]"
proof -
  have "calculateMetrics fl (ad\<lparr>analysis := Some (map fill_scores (analysis_of ad))\<rparr>) d
      = calculateMetrics fl ad d"
    unfolding calculateMetrics_def Let_def analysis_of_update
    by (simp only: docCoverage_fill avgComplexity_fill maintainability_fill testCoverage_fill
        overallScore_fill gen_recommendations_fill gen_languageStats_fill length_map)
  then show ?thesis
    by (simp add: calculateMetrics_def Let_def unscored_means unscored_languageStats
        round1_double_values)
qed

section \<open>Permutations of the analysis\<close>

lemma sum_abc: "double (double (double (double (0 + double (1 / 10)) + double (2 / 10)) + double (3 / 10)) / 3)
   = 7205759403792795 / 36028797018963968"
  by code_simp

lemma sum_cba: "double (double (double (double (0 + double (3 / 10)) + double (2 / 10)) + double (1 / 10)) / 3)
   = 7205759403792793 / 36028797018963968"
  by code_simp

text \<open>The literal \<open>0.1\<close> denotes the number \<open>3602879701896397 / 2 ^ 55\<close>.\<close>

lemma double_one_tenth: "double (1 / 10) = 3602879701896397 / 36028797018963968"
  by code_simp

lemma js_not_inherited: "''js'' \<notin> set Object_prototype_keys"
  by (simp add: Object_prototype_keys_def)

lemma languageStats_calculateMetrics:
  "languageStats (calculateMetrics fl ad d) = gen_languageStats fl (analysis_of ad)"
  by (simp add: calculateMetrics_def Let_def)

lemma gen_languageStats_three:
  "l \<notin> set Object_prototype_keys \<Longrightarrow>
   map_of (gen_languageStats fl [entry p1 l c1 d1, entry p2 l c2 d2, entry p3 l c3 d3]) l =
     Some \<lparr>stat_count = 3,
       stat_avgComplexity = fl (fl (fl (fl (0 + c1) + c2) + c3) / 3),
       stat_avgDoc = fl (fl (fl (fl (0 + d1) + d2) + d3) / 3)\<rparr>"
  by (simp add: gen_languageStats_def languageStats_step_def entry_def
      num_or_zero_def languageStats_finish_def)

lemma stats_abc: "map_of (gen_languageStats double js_abc) ''js'' =
   Some \<lparr>stat_count = 3, stat_avgComplexity = 7205759403792795 / 36028797018963968,
     stat_avgDoc = double (double (double (double (0 + 5) + 5) + 5) / 3)\<rparr>"
  unfolding js_abc_def gen_languageStats_three [OF js_not_inherited] sum_abc ..

lemma stats_cba: "map_of (gen_languageStats double (rev js_abc)) ''js'' =
   Some \<lparr>stat_count = 3, stat_avgComplexity = 7205759403792793 / 36028797018963968,
     stat_avgDoc = double (double (double (double (0 + 5) + 5) + 5) / 3)\<rparr>"
  unfolding js_abc_def rev.simps append.simps gen_languageStats_three [OF js_not_inherited] sum_cba ..

lemma reduce_add_snoc: "reduce_add fl (xs @ [x]) = fl (reduce_add fl xs + x)"
  by (simp add: reduce_add_def)

lemma reduce_add_exact:
  "exact_sums fl S \<Longrightarrow> mset xs \<subseteq># S \<Longrightarrow> reduce_add fl xs = sum_list xs"
proof (induction xs rule: rev_induct)
  case Nil
  then show ?case by (simp add: reduce_add_def)
next
  case (snoc x xs)
  have sub: "mset xs \<subseteq># S"
    using snoc.prems(2) by (metis mset_subset_eq_add_left subset_mset.order_trans mset_append)
  have "fl (sum_mset (mset (xs @ [x]))) = sum_mset (mset (xs @ [x]))"
    using snoc.prems unfolding exact_sums_def by blast
  then have "fl (sum_list xs + x) = sum_list xs + x"
    by (simp add: sum_mset_sum_list add.commute)
  then show ?case
    using snoc.IH [OF snoc.prems(1) sub] by (simp add: reduce_add_snoc)
qed

lemma exact_sums_mono: "exact_sums fl S \<Longrightarrow> T \<subseteq># S \<Longrightarrow> exact_sums fl T"
  unfolding exact_sums_def by (meson subset_mset.order_trans)

lemma reduce_add_map_exact:
  assumes "exact_sums fl (image_mset f (mset an))"
  shows "reduce_add fl (map f an) = sum_mset (image_mset f (mset an))"
proof -
  have "reduce_add fl (map f an) = sum_list (map f an)"
    by (rule reduce_add_exact [OF assms]) simp
  then show ?thesis by (simp add: sum_mset_sum_list [symmetric])
qed

lemma reduce_add_filter_exact:
  assumes "exact_sums fl (image_mset f (mset an))"
  shows "reduce_add fl (map f (filter P an)) = sum_mset (image_mset f (filter_mset P (mset an)))"
proof -
  have "image_mset f (filter_mset P (mset an)) \<subseteq># image_mset f (mset an)"
    by (simp add: image_mset_subseteq_mono)
  then have "exact_sums fl (image_mset f (mset (filter P an)))"
    using assms by (simp add: exact_sums_mono)
  then show ?thesis using reduce_add_map_exact [of fl f "filter P an"] by simp
qed

lemma docCoverage_exact:
  assumes "exact_sums fl (image_mset dscore (mset an))"
  shows "docCoverage fl an =
    (if mset an = {#} then 0 else fl (sum_mset (image_mset dscore (mset an)) / of_nat (size (mset an))))"
  using reduce_add_map_exact [OF assms]
  by (simp add: docCoverage_def dscore_def [abs_def])

lemma avgComplexity_exact:
  assumes "exact_sums fl (image_mset cscore (mset an))"
  shows "avgComplexity fl an =
    (if mset an = {#} then 0 else fl (sum_mset (image_mset cscore (mset an)) / of_nat (size (mset an))))"
  using reduce_add_map_exact [OF assms]
  by (simp add: avgComplexity_def cscore_def [abs_def])

lemma testFiles_mset: "testFiles an = size (filter_mset (\<lambda>a. str_includes (toLowerCase (file_path a)) ''test'') (mset an))"
  by (simp add: testFiles_def flip: mset_filter)

lemma languageStats_step_lookup:
  "map_of (languageStats_step fl stats a) l =
     (if language a \<in> set Object_prototype_keys \<or> l \<noteq> language a then map_of stats l
      else Some (case map_of stats l of
              None \<Rightarrow> \<lparr>stat_count = 1, stat_avgComplexity = fl (0 + cscore a), stat_avgDoc = fl (0 + dscore a)\<rparr>
            | Some st \<Rightarrow> \<lparr>stat_count = stat_count st + 1,
                  stat_avgComplexity = fl (stat_avgComplexity st + cscore a),
                  stat_avgDoc = fl (stat_avgDoc st + dscore a)\<rparr>))"
  by (simp add: languageStats_step_def update_conv' cscore_def dscore_def Let_def split: option.splits)

lemma foldl_languageStats_lookup:
  "map_of (foldl (languageStats_step fl) [] an) l =
     (if l \<in> set Object_prototype_keys \<or> filter (\<lambda>a. language a = l) an = [] then None
      else Some \<lparr>stat_count = length (filter (\<lambda>a. language a = l) an),
             stat_avgComplexity = reduce_add fl (map cscore (filter (\<lambda>a. language a = l) an)),
             stat_avgDoc = reduce_add fl (map dscore (filter (\<lambda>a. language a = l) an))\<rparr>)"
proof (induction an rule: rev_induct)
  case Nil
  then show ?case by simp
next
  case (snoc a an)
  show ?case
  proof (cases "language a \<in> set Object_prototype_keys \<or> l \<noteq> language a")
    case True
    then show ?thesis using snoc by (auto simp add: languageStats_step_lookup)
  next
    case False
    then show ?thesis using snoc
      by (auto simp add: languageStats_step_lookup reduce_add_snoc reduce_add_def)
  qed
qed

lemma gen_languageStats_lookup:
  "map_of (gen_languageStats fl an) l =
     map_option (languageStats_finish fl) (map_of (foldl (languageStats_step fl) [] an) l)"
  by (simp add: gen_languageStats_def map_of_map)

lemma filter_empty_mset: "filter P xs = [] \<longleftrightarrow> filter_mset P (mset xs) = {#}"
  by (metis mset_filter mset_zero_iff)

lemma gen_languageStats_exact:
  assumes "exact_sums fl (image_mset cscore (mset an))" and "exact_sums fl (image_mset dscore (mset an))"
  shows "map_of (gen_languageStats fl an) l =
     (if l \<in> set Object_prototype_keys \<or> filter_mset (\<lambda>a. language a = l) (mset an) = {#} then None
      else Some (languageStats_finish fl
             \<lparr>stat_count = size (filter_mset (\<lambda>a. language a = l) (mset an)),
              stat_avgComplexity = sum_mset (image_mset cscore (filter_mset (\<lambda>a. language a = l) (mset an))),
              stat_avgDoc = sum_mset (image_mset dscore (filter_mset (\<lambda>a. language a = l) (mset an)))\<rparr>))"
  unfolding gen_languageStats_lookup foldl_languageStats_lookup
    reduce_add_filter_exact [OF assms(1)] reduce_add_filter_exact [OF assms(2)] filter_empty_mset
  by (simp flip: mset_filter)

lemma round_ties_even_of_int: "round_ties_even (of_int m) = m"
  by (simp add: round_ties_even_def)

lemma double_of_nat:
  assumes "n < 2 ^ 53"
  shows "double (of_nat n) = of_nat n"
proof (cases "n = 0")
  case True
  then show ?thesis by (simp add: double_def)
next
  case False
  define b where "b = bitlen (int n)"
  have pos: "0 < int n" using False by simp
  have bb: "2 ^ nat (b - 1) \<le> int n" "int n < 2 ^ nat b"
    using bitlen_bounds [OF pos] by (simp_all add: b_def)
  have b1: "1 \<le> b"
    using bitlen_eq_zero_iff [of "int n"] bitlen_nonneg [of "int n"] pos unfolding b_def by linarith
  have "int n < 2 ^ 53" using assms by (metis of_nat_less_iff of_nat_numeral of_nat_power)
  then have "(2::int) ^ nat (b - 1) < 2 ^ 53" using bb(1) by linarith
  then have "nat (b - 1) < 53"
    using power_less_imp_less_exp [of "2::int" "nat (b - 1)" 53] by simp
  then have b53: "b \<le> 53" by linarith
  have one: "(1::rat) \<le> \<bar>of_nat n\<bar>" using False by simp
  have il: "ilog2 (of_nat n) = b - 1"
    using one by (simp add: ilog2_def b_def)
  define k where "k = nat (53 - b)"
  have e: "max (ilog2 (of_nat n) - 52) (- 1074) = - int k"
    using b1 b53 by (simp add: il k_def)
  have p: "(2::rat) powi (- int k) = inverse (2 ^ k)"
    by (simp add: power_int_minus)
  have q: "(of_nat n :: rat) / 2 powi (- int k) = of_int (int n * 2 ^ k)"
    by (simp add: p divide_inverse)
  have nz: "(of_nat n :: rat) \<noteq> 0" using False by simp
  have "double (of_nat n) = of_int (round_ties_even (of_nat n / 2 powi (- int k))) * 2 powi (- int k)"
    using nz by (simp only: double_def e Let_def if_False)
  also have "\<dots> = of_int (int n * 2 ^ k) * inverse (2 ^ k)"
    by (subst q, subst round_ties_even_of_int, subst p, rule refl)
  also have "\<dots> = of_nat n" by simp
  finally show ?thesis .
qed

lemma sum_mset_Nats: "\<forall>x \<in># A. x \<in> \<nat> \<Longrightarrow> sum_mset A \<in> (\<nat> :: rat set)"
  by (induction A) (simp_all add: Nats_add)

lemma sum_mset_Nats_mono:
  assumes "\<forall>x \<in># S. x \<in> (\<nat> :: rat set)" and "A \<subseteq># S"
  shows "sum_mset A \<le> sum_mset S"
proof -
  have "\<forall>x \<in># S - A. x \<in> (\<nat> :: rat set)"
    using assms(1) by (meson in_diffD)
  then have "sum_mset (S - A) \<in> (\<nat> :: rat set)" by (rule sum_mset_Nats)
  then have "0 \<le> sum_mset (S - A)" by (auto simp: Nats_def)
  moreover have "sum_mset S = sum_mset A + sum_mset (S - A)"
    using assms(2) by (metis subset_mset.add_diff_inverse sum_mset.union)
  ultimately show ?thesis by simp
qed

lemma exact_sums_double_Nats:
  assumes nats: "\<forall>x \<in># S. x \<in> \<nat>" and bound: "sum_mset S < 2 ^ 53"
  shows "exact_sums double S"
  unfolding exact_sums_def
proof (intro allI impI)
  fix A assume sub: "A \<subseteq># S"
  then have "\<forall>x \<in># A. x \<in> (\<nat> :: rat set)" using nats by (meson mset_subset_eqD)
  then have "sum_mset A \<in> (\<nat> :: rat set)" by (rule sum_mset_Nats)
  then obtain n where n: "sum_mset A = of_nat n" by (auto simp: Nats_def)
  have "sum_mset A < 2 ^ 53" using sum_mset_Nats_mono [OF nats sub] bound by linarith
  then have "(of_nat n :: rat) < of_nat (2 ^ 53)" by (simp add: n)
  then have "n < 2 ^ 53" by (simp only: of_nat_less_iff)
  then show "double (sum_mset A) = sum_mset A" by (simp only: n double_of_nat)
qed

text \<open>
  C9, as the code has it. When no sum of complexity scores and no sum of documentation
  scores of the analysis rounds (as with whole-numbered scores), the result of
  \<open>calculateMetrics\<close> is the same for every permutation of the analysis: the five scores,
  the recommendations, the statistics by language read as a dictionary, and the two
  counts.
\<close>

theorem C9_permutation_invariance_exact_sums:
  assumes perm: "mset an' = mset (analysis_of ad)"
      and ec: "exact_sums fl (image_mset cscore (mset (analysis_of ad)))"
      and ed: "exact_sums fl (image_mset dscore (mset (analysis_of ad)))"
  shows "metrics_view (calculateMetrics fl (ad\<lparr>analysis := Some an'\<rparr>) d)
       = metrics_view (calculateMetrics fl ad d)"
proof -
  let ?an = "analysis_of ad" and ?fs = "files_of ad"
  have ec': "exact_sums fl (image_mset cscore (mset an'))" and ed': "exact_sums fl (image_mset dscore (mset an'))"
    using ec ed perm by simp_all
  have dc: "docCoverage fl an' = docCoverage fl ?an"
    by (simp add: docCoverage_exact [OF ed] docCoverage_exact [OF ed'] perm)
  have ac: "avgComplexity fl an' = avgComplexity fl ?an"
    by (simp add: avgComplexity_exact [OF ec] avgComplexity_exact [OF ec'] perm)
  have mt: "maintainability fl an' = maintainability fl ?an"
    by (simp add: maintainability_def dc ac)
  have tc: "testCoverage fl an' ?fs = testCoverage fl ?an ?fs"
    by (simp add: testCoverage_def testFiles_mset perm)
  have ws: "weightedScore fl an' ?fs = weightedScore fl ?an ?fs"
    by (simp add: weightedScore_def dc ac mt tc)
  have os: "overallScore fl an' ?fs d = overallScore fl ?an ?fs d"
    by (simp add: overallScore_def ws split: option.splits)
  have rc: "gen_recommendations fl an' ?fs d = gen_recommendations fl ?an ?fs d"
    by (simp only: gen_recommendations_def dc ac tc os)
  have ls: "map_of (gen_languageStats fl an') = map_of (gen_languageStats fl ?an)"
    by (rule ext) (simp only: gen_languageStats_exact [OF ec ed] gen_languageStats_exact [OF ec' ed'] perm)
  have ln: "length an' = length ?an"
    using perm by (metis size_mset)
  show ?thesis
    unfolding metrics_view_def calculateMetrics_def Let_def
    by (simp add: dc ac mt tc os rc ls ln)
qed

theorem C9_permutation_invariance_exact_sums_witness:
  "mset [entry ''b.py'' ''py'' 3 4, entry ''a.js'' ''js'' 1 2] = mset (analysis_of ab_data)
   \<and> exact_sums double (image_mset cscore (mset (analysis_of ab_data)))
   \<and> exact_sums double (image_mset dscore (mset (analysis_of ab_data)))
   \<and> metrics_view (calculateMetrics double
         (ab_data\<lparr>analysis := Some [entry ''b.py'' ''py'' 3 4, entry ''a.js'' ''js'' 1 2]\<rparr>)
         \<lparr>quality_score = None\<rparr>)
       = metrics_view (calculateMetrics double ab_data \<lparr>quality_score = None\<rparr>)"
proof -
  have p: "mset [entry ''b.py'' ''py'' 3 4, entry ''a.js'' ''js'' 1 2] = mset (analysis_of ab_data)"
    by (simp add: ab_data_def analysis_of_def)
  have c: "exact_sums double (image_mset cscore (mset (analysis_of ab_data)))"
    by (rule exact_sums_double_Nats)
      (simp_all add: ab_data_def analysis_of_def cscore_def entry_def num_or_zero_def)
  have d: "exact_sums double (image_mset dscore (mset (analysis_of ab_data)))"
    by (rule exact_sums_double_Nats)
      (simp_all add: ab_data_def analysis_of_def dscore_def entry_def num_or_zero_def)
  show ?thesis
    using p c d C9_permutation_invariance_exact_sums [OF p c d, of "\<lparr>quality_score = None\<rparr>"] by blast
qed

text \<open>
  C9, as the claim states it, fails on the numbers of JavaScript: for three files of one
  language with the complexities 0.1, 0.2 and 0.3, the mean complexity of the language
  is 0.20000000000000004 in this order and 0.19999999999999998 in the reverse order,
  since \<open>(0.1 + 0.2) + 0.3\<close> and \<open>(0.3 + 0.2) + 0.1\<close> round differently.
\<close>

theorem C9_permutation_changes_language_mean:
  "mset (rev js_abc) = mset js_abc
   \<and> metrics_view (calculateMetrics double
         \<lparr>analysis = Some (rev js_abc), files = Some [], doc = None\<rparr> \<lparr>quality_score = None\<rparr>)
     \<noteq> metrics_view (calculateMetrics double
         \<lparr>analysis = Some js_abc, files = Some [], doc = None\<rparr> \<lparr>quality_score = None\<rparr>)"
proof -
  have "map_of (gen_languageStats double (rev js_abc)) \<noteq> map_of (gen_languageStats double js_abc)"
  proof
    assume "map_of (gen_languageStats double (rev js_abc)) = map_of (gen_languageStats double js_abc)"
    then have "map_of (gen_languageStats double (rev js_abc)) ''js''
        = map_of (gen_languageStats double js_abc) ''js''"
      by simp
    then show False by (simp add: stats_abc stats_cba)
  qed
  then show ?thesis
    by (simp add: metrics_view_def languageStats_calculateMetrics analysis_of_def)
qed


section \<open>Validation of the repository reference\<close>

lemma nullable_lang: "nullable r \<longleftrightarrow> [] \<in> lang r"
  by (induction r) (auto intro: star_empty)

lemma star_Cons_split:
  assumes "w \<in> star A" and "w = c # s"
  shows "\<exists>u v. s = u @ v \<and> c # u \<in> A \<and> v \<in> star A"
  using assms
proof (induction arbitrary: s rule: star.induct)
  case star_empty
  then show ?case by simp
next
  case (star_step u v)
  show ?case
  proof (cases u)
    case Nil
    then show ?thesis using star_step by simp
  next
    case (Cons d u')
    then have "s = u' @ v" and "c # u' \<in> A" using star_step.prems star_step.hyps(1) by auto
    then show ?thesis using star_step.hyps(2) by blast
  qed
qed

lemma star_Cons_iff:
  "c # s \<in> star A \<longleftrightarrow> (\<exists>u v. s = u @ v \<and> c # u \<in> A \<and> v \<in> star A)"
proof
  assume "c # s \<in> star A"
  then show "\<exists>u v. s = u @ v \<and> c # u \<in> A \<and> v \<in> star A" by (rule star_Cons_split) simp
next
  assume "\<exists>u v. s = u @ v \<and> c # u \<in> A \<and> v \<in> star A"
  then obtain u v where "s = u @ v" "c # u \<in> A" "v \<in> star A" by blast
  then show "c # s \<in> star A" using star_step [of "c # u" A v] by simp
qed

lemma deriv_lang: "s \<in> lang (deriv c r) \<longleftrightarrow> c # s \<in> lang r"
proof (induction r arbitrary: s)
  case (Seq r1 r2)
  show ?case
  proof (cases "nullable r1")
    case True
    then show ?thesis using Seq by (auto simp: nullable_lang Cons_eq_append_conv)
  next
    case False
    then show ?thesis using Seq by (auto simp: nullable_lang Cons_eq_append_conv)
  qed
next
  case (Star r)
  then show ?case by (auto simp: star_Cons_iff)
qed auto

lemma re_test_lang: "re_test r s \<longleftrightarrow> s \<in> lang r"
  unfolding re_test_def
  by (induction s arbitrary: r) (simp_all add: nullable_lang deriv_lang)

lemma validateGitHubUrl_lang:
  "validateGitHubUrl url \<longleftrightarrow> (\<exists>pattern \<in> set githubPatterns. trim url \<in> lang pattern)"
  by (simp add: validateGitHubUrl_def list_ex_iff re_test_lang)

lemma accepts_https: "validateGitHubUrl ''https://github.com/acme/widgets''"
  by code_simp

lemma accepts_ssh: "validateGitHubUrl ''git@github.com:acme/widgets.git''"
  by code_simp

lemma rejects_other_host: "\<not> validateGitHubUrl ''https://example.com/acme/widgets''"
  by code_simp

lemma exampleRepos_valid: "list_all validateGitHubUrl exampleRepos"
  by code_simp

lemma input_step_valid:
  assumes "isValid s = validateGitHubUrl (repoUrl s)"
  shows "isValid (input_step s ev) = validateGitHubUrl (repoUrl (input_step s ev))"
proof (cases ev)
  case (UrlChange url)
  then show ?thesis by (simp add: handleUrlChange_def)
next
  case (BranchChange b)
  then show ?thesis using assms by (simp add: setBranch_def)
next
  case (ExampleClick i)
  show ?thesis
  proof (cases "i < length exampleRepos")
    case True
    then have "validateGitHubUrl (exampleRepos ! i)"
      using exampleRepos_valid by (simp add: list_all_length)
    then show ?thesis using True ExampleClick by (simp add: handleExampleClick_def)
  next
    case False
    then show ?thesis using assms ExampleClick by simp
  qed
qed

lemma input_run_valid: "isValid (input_run evs) = validateGitHubUrl (repoUrl (input_run evs))"
proof (induction evs rule: rev_induct)
  case Nil
  have "\<not> validateGitHubUrl []" by code_simp
  then show ?case by (simp add: input_run_def repo_input_init_def)
next
  case (snoc ev evs)
  then show ?case using input_step_valid [of "input_run evs" ev] by (simp add: input_run_def)
qed

text \<open>
  C7. Whatever the user did to the form, a submission whose reference does not match
  one of the three patterns changes nothing in the application and posts no request,
  and every request that is posted carries a reference that matches one of them.
  \<open>https://github.com/acme/widgets\<close> and \<open>git@github.com:acme/widgets.git\<close> are accepted,
  \<open>https://example.com/acme/widgets\<close> is rejected.
\<close>

theorem C7_submission_needs_valid_reference:
  "(\<not> validateGitHubUrl (repoUrl (input_run evs)) \<longrightarrow> submit (input_run evs) app = (app, None))
   \<and> (\<forall>rq. snd (submit (input_run evs) app) = Some rq \<longrightarrow>
         list_ex (\<lambda>pattern. re_test pattern (repo_url rq)) githubPatterns)
   \<and> validateGitHubUrl ''https://github.com/acme/widgets''
   \<and> validateGitHubUrl ''git@github.com:acme/widgets.git''
   \<and> \<not> validateGitHubUrl ''https://example.com/acme/widgets''"
proof (intro conjI impI allI)
  assume "\<not> validateGitHubUrl (repoUrl (input_run evs))"
  then have "\<not> isValid (input_run evs)" by (simp add: input_run_valid)
  then show "submit (input_run evs) app = (app, None)"
    by (simp add: submit_def handleSubmit_def)
next
  fix rq assume "snd (submit (input_run evs) app) = Some rq"
  then have "isValid (input_run evs)" and "repo_url rq = trim (repoUrl (input_run evs))"
    by (auto simp add: submit_def handleSubmit_def split: if_splits)
  then show "list_ex (\<lambda>pattern. re_test pattern (repo_url rq)) githubPatterns"
    by (simp add: input_run_valid validateGitHubUrl_def)
qed (rule accepts_https accepts_ssh rejects_other_host)+

theorem C7_submission_needs_valid_reference_witness:
  "\<not> validateGitHubUrl (repoUrl (input_run [UrlChange ''https://example.com/acme/widgets'']))
   \<and> submit (input_run [UrlChange ''https://example.com/acme/widgets'']) app_init = (app_init, None)
   \<and> (\<exists>rq. snd (submit (input_run [UrlChange ''https://github.com/acme/widgets'']) app_init) = Some rq
         \<and> list_ex (\<lambda>pattern. re_test pattern (repo_url rq)) githubPatterns)"
proof -
  have r: "repoUrl (input_run [UrlChange ''https://example.com/acme/widgets''])
      = ''https://example.com/acme/widgets''"
    by (simp add: input_run_def handleUrlChange_def)
  have v: "isValid (input_run [UrlChange ''https://github.com/acme/widgets''])"
    by (simp add: input_run_def handleUrlChange_def accepts_https)
  then have "\<exists>rq. snd (submit (input_run [UrlChange ''https://github.com/acme/widgets'']) app_init) = Some rq"
    by (simp add: submit_def handleSubmit_def app_init_def)
  then show ?thesis
    using C7_submission_needs_valid_reference [of "[UrlChange ''https://example.com/acme/widgets'']" app_init]
      C7_submission_needs_valid_reference [of "[UrlChange ''https://github.com/acme/widgets'']" app_init]
    by (auto simp only: r)
qed

section \<open>Answers that arrive after the selection has changed\<close>

text \<open>
  C1, as the code has it. Select file \<open>A\<close>, select code in it, ask for the explanation
  and select file \<open>B\<close> before the answer arrives: selecting \<open>B\<close> clears the explanation and
  the selected code. The answer for \<open>A\<close> is not discarded when it arrives: it becomes
  the explanation (the fallback text if the request failed) and clears \<open>isExplaining\<close>,
  while \<open>B\<close> stays selected.
\<close>

theorem C1_late_answer_is_applied:
  assumes "sel \<noteq> []" and "\<not> isExplaining s"
  shows "explanation (explorer_run s (scenario A sel B)) = None
    \<and> selectedFile (explorer_run s (scenario A sel B @ [Respond (length (pending s)) outcome])) = Some B
    \<and> selectedCode (explorer_run s (scenario A sel B @ [Respond (length (pending s)) outcome])) = []
    \<and> isExplaining (explorer_run s (scenario A sel B @ [Respond (length (pending s)) outcome])) = False
    \<and> explanation (explorer_run s (scenario A sel B @ [Respond (length (pending s)) outcome]))
        = Some (case outcome of Inr answer \<Rightarrow> answer | Inl e \<Rightarrow> fallback_explanation)"
  using assms
  by (simp add: explorer_run_def scenario_def selectFile_def handleEditorSelectionChange_def
      explainCode_begin_def explainCode_resume_def split: sum.splits)

theorem C1_late_answer_is_applied_witness:
  "''let a'' \<noteq> [] \<and> \<not> isExplaining explorer_init
   \<and> selectedFile (explorer_run explorer_init
        (scenario file_A ''let a'' file_B @ [Respond 0 (Inl (status_error 500))])) = Some file_B
   \<and> explanation (explorer_run explorer_init
        (scenario file_A ''let a'' file_B @ [Respond 0 (Inl (status_error 500))])) = Some fallback_explanation"
  using C1_late_answer_is_applied [of "''let a''" explorer_init file_A file_B "Inl (status_error 500)"]
  by (simp add: explorer_init_def)

text \<open>
  C1, as the claim states it, fails: after the scenario the explanation is empty and
  the one pending request is the request for \<open>src/a.js\<close>; when its answer arrives, file
  \<open>B\<close> is selected and the answer for \<open>A\<close> becomes the explanation.
\<close>

theorem C1_stale_answer_changes_state:
  "explanation (explorer_run explorer_init (scenario file_A ''let a'' file_B)) = None
   \<and> map req_file_path (pending (explorer_run explorer_init (scenario file_A ''let a'' file_B)))
       = [''src/a.js'']
   \<and> selectedFile (explorer_run explorer_init
        (scenario file_A ''let a'' file_B @ [Respond 0 (Inr answer_A)])) = Some file_B
   \<and> explanation (explorer_run explorer_init
        (scenario file_A ''let a'' file_B @ [Respond 0 (Inr answer_A)])) = Some answer_A"
  by (simp add: explorer_run_def scenario_def explorer_init_def selectFile_def
      handleEditorSelectionChange_def explainCode_begin_def explainCode_resume_def file_A_def
      new_file_node_def mk_file_def file_record.defs)

section \<open>The file tree\<close>

text \<open>
  C4. For the files \<open>a\<close> and \<open>a/b\<close>, in this order, \<open>buildFileTree\<close> does not return a
  tree: the second file finds the file node \<open>a\<close> where it looks for a folder, and the
  access to its \<open>children\<close> throws a \<open>TypeError\<close>.
\<close>

theorem C4_file_then_folder_throws:
  "buildFileTree [mk_file ''a'', mk_file ''a/b''] = Inl TypeError"
  by (simp add: buildFileTree_def mk_file_def)

lemma leaves_file_paths: "leaves t = length (file_paths t)"
  by (induction t rule: leaves.induct) (simp_all add: length_concat o_def cong: map_cong)

lemma folders_folder_paths: "folders t = length (folder_paths t)"
  by (induction t rule: folders.induct) (simp_all add: length_concat o_def cong: map_cong)

lemma distinct_concat_keys:
  assumes "distinct (map fst cs)" and "\<And>kc. kc \<in> set cs \<Longrightarrow> distinct (g kc)"
  shows "distinct (concat (map (\<lambda>kc. map ((#) (fst kc)) (g kc)) cs))"
  using assms
proof (induction cs)
  case Nil
  then show ?case by simp
next
  case (Cons kc cs)
  have "distinct (map ((#) (fst kc)) (g kc))"
    using Cons.prems(2) by (simp add: distinct_map)
  moreover have "distinct (concat (map (\<lambda>kc. map ((#) (fst kc)) (g kc)) cs))"
    using Cons by simp
  moreover have "set (map ((#) (fst kc)) (g kc)) \<inter> set (concat (map (\<lambda>kc. map ((#) (fst kc)) (g kc)) cs)) = {}"
    using Cons.prems(1) by (auto simp: image_iff)
  ultimately show ?case by simp
qed

lemma wf_distinct_file_paths: "wf_tree t \<Longrightarrow> distinct (file_paths t)"
  by (induction t rule: file_paths.induct) (simp_all add: distinct_concat_keys)

lemma wf_distinct_folder_paths: "wf_tree t \<Longrightarrow> distinct (folder_paths t)"
  by (induction t rule: folder_paths.induct) (auto simp add: distinct_concat_keys)

lemma set_file_paths_folder:
  assumes "distinct (map fst cs)"
  shows "set (file_paths (FolderNode n cs)) =
    {k # q | k q. \<exists>c. map_of cs k = Some c \<and> q \<in> set (file_paths c)}"
  using assms by (auto simp: image_iff)

lemma set_folder_paths_folder:
  assumes "distinct (map fst cs)"
  shows "set (folder_paths (FolderNode n cs)) =
    insert [] {k # q | k q. \<exists>c. map_of cs k = Some c \<and> q \<in> set (folder_paths c)}"
  using assms by (auto simp: image_iff)

lemma set_update_subset: "set (AList.update k v al) \<subseteq> insert (k, v) (set al)"
  by (induction al) auto

lemma wf_tree_update:
  assumes "wf_tree (FolderNode n cs)" and "wf_tree v"
  shows "wf_tree (FolderNode n (AList.update k v cs))"
  using assms set_update_subset [of k v cs] by (auto simp: distinct_update)

lemma file_paths_update:
  assumes "distinct (map fst cs)"
  shows "set (file_paths (FolderNode n (AList.update k v cs))) =
    {p \<in> set (file_paths (FolderNode n cs)). \<not> prefix [k] p} \<union> (#) k ` set (file_paths v)"
  unfolding set_file_paths_folder [OF assms] set_file_paths_folder [OF distinct_update [OF assms]]
    update_conv'
  by auto

lemma folder_paths_update:
  assumes "distinct (map fst cs)"
  shows "set (folder_paths (FolderNode n (AList.update k v cs))) =
    {p \<in> set (folder_paths (FolderNode n cs)). \<not> prefix [k] p} \<union> (#) k ` set (folder_paths v)"
  unfolding set_folder_paths_folder [OF assms] set_folder_paths_folder [OF distinct_update [OF assms]]
    update_conv'
  by auto

lemma file_paths_child:
  assumes "distinct (map fst cs)"
  shows "k # q \<in> set (file_paths (FolderNode n cs)) \<longleftrightarrow>
    (\<exists>c. map_of cs k = Some c \<and> q \<in> set (file_paths c))"
  unfolding set_file_paths_folder [OF assms] by auto

lemma folder_paths_child:
  assumes "distinct (map fst cs)"
  shows "k # q \<in> set (folder_paths (FolderNode n cs)) \<longleftrightarrow>
    (\<exists>c. map_of cs k = Some c \<and> q \<in> set (folder_paths c))"
  unfolding set_folder_paths_folder [OF assms] by auto

lemma paths_empty_folder [simp]:
  "file_paths (FolderNode n []) = []" "folder_paths (FolderNode n []) = [[]]"
  by simp_all

lemma root_paths [simp]:
  "[] \<in> set (folder_paths (FolderNode n cs))" "[] \<notin> set (file_paths (FolderNode n cs))"
  by auto

declare file_paths.simps(2) [simp del] folder_paths.simps(2) [simp del]

lemma prefix_Cons_left: "prefix (a # as) p \<longleftrightarrow> (\<exists>q. p = a # q \<and> prefix as q)"
  by (cases p) auto

lemma strict_prefix_Cons_set: "rest \<noteq> [] \<Longrightarrow>
  {q. strict_prefix q (part # rest)} = insert [] ((#) part ` {q. strict_prefix q rest})"
  by (auto simp: strict_prefix_def prefix_Cons image_iff)

lemma place_effect:
  assumes "wf_tree (FolderNode n cs)" and "ps \<noteq> []"
      and "\<And>q. strict_prefix q ps \<Longrightarrow> q \<noteq> [] \<Longrightarrow> q \<notin> set (file_paths (FolderNode n cs))"
  shows "\<exists>cs'. place file ps (FolderNode n cs) = Inr (FolderNode n cs')
      \<and> wf_tree (FolderNode n cs')
      \<and> set (file_paths (FolderNode n cs')) =
          {p \<in> set (file_paths (FolderNode n cs)). \<not> prefix ps p} \<union> {ps}
      \<and> set (folder_paths (FolderNode n cs')) =
          {p \<in> set (folder_paths (FolderNode n cs)). \<not> prefix ps p} \<union> {q. strict_prefix q ps}"
  using assms
proof (induction ps arbitrary: n cs)
  case Nil
  then show ?case by simp
next
  case (Cons part rest)
  have dist: "distinct (map fst cs)" using Cons.prems(1) by simp
  show ?case
  proof (cases rest)
    case Nil
    let ?v = "FileNode (new_file_node part file)"
    have 1: "place file (part # rest) (FolderNode n cs) = Inr (FolderNode n (AList.update part ?v cs))"
      using Nil by simp
    have 2: "wf_tree (FolderNode n (AList.update part ?v cs))"
      by (rule wf_tree_update [OF Cons.prems(1)]) simp
    have 3: "set (file_paths (FolderNode n (AList.update part ?v cs))) =
          {p \<in> set (file_paths (FolderNode n cs)). \<not> prefix (part # rest) p} \<union> {part # rest}"
      unfolding file_paths_update [OF dist] using Nil by auto
    have 4: "set (folder_paths (FolderNode n (AList.update part ?v cs))) =
          {p \<in> set (folder_paths (FolderNode n cs)). \<not> prefix (part # rest) p}
          \<union> {q. strict_prefix q (part # rest)}"
      unfolding folder_paths_update [OF dist] using Nil by (auto simp: strict_prefix_def prefix_Cons prefix_Cons_left)
    show ?thesis using 1 2 3 4 by blast
  next
    case rest: (Cons part' rest')
    have sps: "{q. strict_prefix q (part # rest)} = insert [] ((#) part ` {q. strict_prefix q rest})"
      by (rule strict_prefix_Cons_set) (simp add: rest)
    show ?thesis
    proof (cases "map_of cs part")
      case None
      have "\<exists>cs'. place file rest (FolderNode part []) = Inr (FolderNode part cs')
        \<and> wf_tree (FolderNode part cs')
        \<and> set (file_paths (FolderNode part cs')) =
            {p \<in> set (file_paths (FolderNode part [])). \<not> prefix rest p} \<union> {rest}
        \<and> set (folder_paths (FolderNode part cs')) =
            {p \<in> set (folder_paths (FolderNode part [])). \<not> prefix rest p} \<union> {q. strict_prefix q rest}"
        by (rule Cons.IH) (simp_all add: rest)
      then obtain cs' where c: "place file rest (FolderNode part []) = Inr (FolderNode part cs')"
        and wf': "wf_tree (FolderNode part cs')"
        and fp0: "set (file_paths (FolderNode part cs')) =
            {p \<in> set (file_paths (FolderNode part [])). \<not> prefix rest p} \<union> {rest}"
        and dp0: "set (folder_paths (FolderNode part cs')) =
            {p \<in> set (folder_paths (FolderNode part [])). \<not> prefix rest p} \<union> {q. strict_prefix q rest}"
        by blast
      have fp: "set (file_paths (FolderNode part cs')) = {rest}"
        unfolding fp0 by simp
      have "strict_prefix [] rest" using rest by simp
      then have dp: "set (folder_paths (FolderNode part cs')) = {q. strict_prefix q rest}"
        unfolding dp0 by auto
      let ?v = "FolderNode part cs'"
      have 1: "place file (part # rest) (FolderNode n cs) = Inr (FolderNode n (AList.update part ?v cs))"
        using None c rest by simp
      have 2: "wf_tree (FolderNode n (AList.update part ?v cs))"
        by (rule wf_tree_update [OF Cons.prems(1) wf'])
      have no: "\<And>q. part # q \<notin> set (file_paths (FolderNode n cs))"
        "\<And>q. part # q \<notin> set (folder_paths (FolderNode n cs))"
        using None unfolding file_paths_child [OF dist] folder_paths_child [OF dist] by simp_all
      have 3: "set (file_paths (FolderNode n (AList.update part ?v cs))) =
          {p \<in> set (file_paths (FolderNode n cs)). \<not> prefix (part # rest) p} \<union> {part # rest}"
        unfolding file_paths_update [OF dist] fp using no(1) by (auto simp: prefix_Cons_left)
      have 4: "set (folder_paths (FolderNode n (AList.update part ?v cs))) =
          {p \<in> set (folder_paths (FolderNode n cs)). \<not> prefix (part # rest) p}
          \<union> {q. strict_prefix q (part # rest)}"
        unfolding folder_paths_update [OF dist] dp sps
        using no(2) by (auto simp: prefix_Cons_left)
      show ?thesis using 1 2 3 4 by blast
    next
      case (Some c)
      have cin: "(part, c) \<in> set cs" using Some by (rule map_of_SomeD)
      have sp: "strict_prefix [part] (part # rest)" using rest by (simp add: strict_prefix_def)
      obtain m ccs where cf: "c = FolderNode m ccs"
      proof (cases c)
        case (FileNode f)
        then have "[part] \<in> set (file_paths (FolderNode n cs))"
          using Some unfolding file_paths_child [OF dist] by simp
        then show ?thesis using Cons.prems(3) [OF sp] by simp
      next
        case (FolderNode m ccs)
        then show ?thesis using that by simp
      qed
      have "wf_tree c" using Cons.prems(1) cin by force
      then have wfc: "wf_tree (FolderNode m ccs)" using cf by simp
      have free: "\<And>q. strict_prefix q rest \<Longrightarrow> q \<noteq> [] \<Longrightarrow> q \<notin> set (file_paths (FolderNode m ccs))"
      proof
        fix q assume q: "strict_prefix q rest" "q \<noteq> []" "q \<in> set (file_paths (FolderNode m ccs))"
        then have "part # q \<in> set (file_paths (FolderNode n cs))"
          using Some cf unfolding file_paths_child [OF dist] by simp
        moreover have "strict_prefix (part # q) (part # rest)" using q(1) by simp
        ultimately show False using Cons.prems(3) by blast
      qed
      have "\<exists>cs'. place file rest (FolderNode m ccs) = Inr (FolderNode m cs')
        \<and> wf_tree (FolderNode m cs')
        \<and> set (file_paths (FolderNode m cs')) =
            {p \<in> set (file_paths (FolderNode m ccs)). \<not> prefix rest p} \<union> {rest}
        \<and> set (folder_paths (FolderNode m cs')) =
            {p \<in> set (folder_paths (FolderNode m ccs)). \<not> prefix rest p} \<union> {q. strict_prefix q rest}"
        by (rule Cons.IH [OF wfc _ free]) (simp_all add: rest)
      then obtain cs' where c: "place file rest (FolderNode m ccs) = Inr (FolderNode m cs')"
        and wf': "wf_tree (FolderNode m cs')"
        and fp: "set (file_paths (FolderNode m cs')) =
            {p \<in> set (file_paths (FolderNode m ccs)). \<not> prefix rest p} \<union> {rest}"
        and dp: "set (folder_paths (FolderNode m cs')) =
            {p \<in> set (folder_paths (FolderNode m ccs)). \<not> prefix rest p} \<union> {q. strict_prefix q rest}"
        by blast
      let ?v = "FolderNode m cs'"
      have 1: "place file (part # rest) (FolderNode n cs) = Inr (FolderNode n (AList.update part ?v cs))"
        using Some c cf rest by simp
      have 2: "wf_tree (FolderNode n (AList.update part ?v cs))"
        by (rule wf_tree_update [OF Cons.prems(1) wf'])
      have ch: "\<And>q. part # q \<in> set (file_paths (FolderNode n cs)) \<longleftrightarrow> q \<in> set (file_paths (FolderNode m ccs))"
        "\<And>q. part # q \<in> set (folder_paths (FolderNode n cs)) \<longleftrightarrow> q \<in> set (folder_paths (FolderNode m ccs))"
        using Some cf unfolding file_paths_child [OF dist] folder_paths_child [OF dist] by simp_all
      have 3: "set (file_paths (FolderNode n (AList.update part ?v cs))) =
          {p \<in> set (file_paths (FolderNode n cs)). \<not> prefix (part # rest) p} \<union> {part # rest}"
        unfolding file_paths_update [OF dist] fp using ch(1) by (auto simp: prefix_Cons_left)
      have 4: "set (folder_paths (FolderNode n (AList.update part ?v cs))) =
          {p \<in> set (folder_paths (FolderNode n cs)). \<not> prefix (part # rest) p}
          \<union> {q. strict_prefix q (part # rest)}"
        unfolding folder_paths_update [OF dist] dp sps
        using ch(2) by (auto simp: prefix_Cons_left)
      show ?thesis using 1 2 3 4 by blast
    qed
  qed
qed

lemma split_slash_nonempty [simp]: "split_slash s \<noteq> []" "[] \<noteq> split_slash s"
  by (induction s) (simp_all split: list.splits)

lemma parts_nonempty [simp]: "parts f \<noteq> []"
  by (simp add: parts_def)

lemma split_slash_inject: "split_slash s = split_slash s' \<Longrightarrow> s = s'"
proof (induction s arbitrary: s')
  case Nil
  then show ?case by (cases s') (auto split: if_splits list.splits)
next
  case (Cons c cs)
  show ?case
  proof (cases s')
    case Nil
    then show ?thesis using Cons.prems by (auto split: if_splits list.splits)
  next
    case s': (Cons c' cs')
    have "c = c' \<and> split_slash cs = split_slash cs'"
      using Cons.prems unfolding s'
      by (auto split: if_splits list.splits)
    then show ?thesis using Cons.IH s' by simp
  qed
qed

lemma card_parts: "card (parts ` set fs) = card (path ` set fs)"
proof -
  have "inj split_slash" by (rule injI) (rule split_slash_inject)
  then have "card (split_slash ` (path ` set fs)) = card (path ` set fs)"
    by (meson card_image inj_on_subset subset_UNIV)
  moreover have "parts ` set fs = split_slash ` (path ` set fs)"
    by (auto simp: parts_def)
  ultimately show ?thesis by simp
qed

lemma place_all_effect:
  assumes "wf_tree (FolderNode n cs)"
      and "set (file_paths (FolderNode n cs)) = parts ` set done"
      and "set (folder_paths (FolderNode n cs)) = insert [] {q. \<exists>f \<in> set done. strict_prefix q (parts f)}"
      and "prefix_free (done @ fs)"
  shows "\<exists>cs'. place_all fs (FolderNode n cs) = Inr (FolderNode n cs')
      \<and> wf_tree (FolderNode n cs')
      \<and> set (file_paths (FolderNode n cs')) = parts ` set (done @ fs)
      \<and> set (folder_paths (FolderNode n cs')) =
          insert [] {q. \<exists>f \<in> set (done @ fs). strict_prefix q (parts f)}"
  using assms
proof (induction fs arbitrary: cs "done")
  case Nil
  then show ?case by simp
next
  case (Cons f fs)
  let ?t = "FolderNode n cs"
  have pf: "\<And>g h. g \<in> set (done @ f # fs) \<Longrightarrow> h \<in> set (done @ f # fs) \<Longrightarrow>
      \<not> strict_prefix (parts g) (parts h)"
    using Cons.prems(4) unfolding prefix_free_def by blast
  have nopre: "\<And>g. g \<in> set done \<Longrightarrow> prefix (parts f) (parts g) \<Longrightarrow> parts g = parts f"
  proof (rule ccontr)
    fix g assume g: "g \<in> set done" "prefix (parts f) (parts g)" "parts g \<noteq> parts f"
    then have "strict_prefix (parts f) (parts g)" by (auto simp: strict_prefix_def)
    then show False using pf [of f g] g(1) by simp
  qed
  have free: "\<And>q. strict_prefix q (parts f) \<Longrightarrow> q \<noteq> [] \<Longrightarrow> q \<notin> set (file_paths ?t)"
  proof
    fix q assume q: "strict_prefix q (parts f)" "q \<in> set (file_paths ?t)"
    then obtain g where "g \<in> set done" "q = parts g" using Cons.prems(2) by auto
    then show False using pf [of g f] q(1) by simp
  qed
  have nopre2: "\<And>g q. g \<in> set done \<Longrightarrow> strict_prefix q (parts g) \<Longrightarrow> \<not> prefix (parts f) q"
  proof
    fix g q assume g: "g \<in> set done" "strict_prefix q (parts g)" "prefix (parts f) q"
    then have "strict_prefix (parts f) (parts g)" by (meson prefix_order.le_less_trans)
    then show False using pf [of f g] g(1) by simp
  qed
  have "\<exists>cs1. place f (parts f) ?t = Inr (FolderNode n cs1)
      \<and> wf_tree (FolderNode n cs1)
      \<and> set (file_paths (FolderNode n cs1)) =
          {p \<in> set (file_paths ?t). \<not> prefix (parts f) p} \<union> {parts f}
      \<and> set (folder_paths (FolderNode n cs1)) =
          {p \<in> set (folder_paths ?t). \<not> prefix (parts f) p} \<union> {q. strict_prefix q (parts f)}"
    by (rule place_effect [OF Cons.prems(1) parts_nonempty free])
  then obtain cs1 where p1: "place f (parts f) ?t = Inr (FolderNode n cs1)"
    and wf1: "wf_tree (FolderNode n cs1)"
    and fp1: "set (file_paths (FolderNode n cs1)) =
          {p \<in> set (file_paths ?t). \<not> prefix (parts f) p} \<union> {parts f}"
    and dp1: "set (folder_paths (FolderNode n cs1)) =
          {p \<in> set (folder_paths ?t). \<not> prefix (parts f) p} \<union> {q. strict_prefix q (parts f)}"
    by blast
  have fp1': "set (file_paths (FolderNode n cs1)) = parts ` set (done @ [f])"
    unfolding fp1 Cons.prems(2) using nopre by auto
  have dp1': "set (folder_paths (FolderNode n cs1)) =
      insert [] {q. \<exists>g \<in> set (done @ [f]). strict_prefix q (parts g)}"
    unfolding dp1 Cons.prems(3) using nopre2 by auto
  have pf': "prefix_free ((done @ [f]) @ fs)"
    using Cons.prems(4) by simp
  have "\<exists>cs'. place_all fs (FolderNode n cs1) = Inr (FolderNode n cs')
      \<and> wf_tree (FolderNode n cs')
      \<and> set (file_paths (FolderNode n cs')) = parts ` set ((done @ [f]) @ fs)
      \<and> set (folder_paths (FolderNode n cs')) =
          insert [] {q. \<exists>f \<in> set ((done @ [f]) @ fs). strict_prefix q (parts f)}"
    by (rule Cons.IH [OF wf1 fp1' dp1' pf'])
  then show ?case using p1 by (simp add: parts_def)
qed

lemma card_insert_Nil:
  assumes "finite S"
  shows "card (insert [] S) = Suc (card {q \<in> S. q \<noteq> []})"
proof -
  have "insert [] S = insert [] {q \<in> S. q \<noteq> []}" by auto
  moreover have "finite {q \<in> S. q \<noteq> []}" using assms by simp
  ultimately show ?thesis by (simp add: card_insert_if)
qed

text \<open>
  C6, as the code has it. When no path of the input is the beginning of another path,
  segment by segment, and no segment names a member of \<open>Object.prototype\<close>,
  \<open>buildFileTree\<close> returns a tree with as many file nodes as the input has distinct
  paths (files of the same path share one node, the last one written), which are \<open>N\<close>
  for \<open>N\<close> files of pairwise distinct paths; the folder nodes are the root and one
  folder for each distinct proper prefix of the paths.
\<close>

theorem C6_leaves_and_folders:
  assumes "prefix_free fs" and "plain_segments fs"
  shows "\<exists>t. buildFileTree fs = Inr t
    \<and> leaves t = card (path ` set fs)
    \<and> (distinct (map path fs) \<longrightarrow> leaves t = length fs)
    \<and> folders t = Suc (card (proper_prefixes fs))"
proof -
  have "\<exists>cs'. place_all fs (FolderNode ''root'' []) = Inr (FolderNode ''root'' cs')
      \<and> wf_tree (FolderNode ''root'' cs')
      \<and> set (file_paths (FolderNode ''root'' cs')) = parts ` set ([] @ fs)
      \<and> set (folder_paths (FolderNode ''root'' cs')) =
          insert [] {q. \<exists>f \<in> set ([] @ fs). strict_prefix q (parts f)}"
    by (rule place_all_effect) (simp_all add: assms)
  then obtain cs' where b: "buildFileTree fs = Inr (FolderNode ''root'' cs')"
    and wf: "wf_tree (FolderNode ''root'' cs')"
    and fp: "set (file_paths (FolderNode ''root'' cs')) = parts ` set fs"
    and dp: "set (folder_paths (FolderNode ''root'' cs')) =
          insert [] {q. \<exists>f \<in> set fs. strict_prefix q (parts f)}"
    by (auto simp: buildFileTree_def)
  let ?t = "FolderNode ''root'' cs'"
  have "leaves ?t = card (set (file_paths ?t))"
    by (simp only: leaves_file_paths distinct_card [OF wf_distinct_file_paths [OF wf]])
  also have "\<dots> = card (path ` set fs)" by (simp only: fp card_parts)
  finally have l: "leaves ?t = card (path ` set fs)" .
  have l': "distinct (map path fs) \<longrightarrow> leaves ?t = length fs"
    using l distinct_card [of "map path fs"] by simp
  have fin: "finite {q. \<exists>f \<in> set fs. strict_prefix q (parts f)}"
  proof (rule finite_subset)
    show "{q. \<exists>f \<in> set fs. strict_prefix q (parts f)} \<subseteq> set (folder_paths ?t)"
      unfolding dp by blast
  qed simp
  have "folders ?t = card (set (folder_paths ?t))"
    by (simp only: folders_folder_paths distinct_card [OF wf_distinct_folder_paths [OF wf]])
  also have "\<dots> = Suc (card {q \<in> {q. \<exists>f \<in> set fs. strict_prefix q (parts f)}. q \<noteq> []})"
    unfolding dp by (rule card_insert_Nil [OF fin])
  also have "{q \<in> {q. \<exists>f \<in> set fs. strict_prefix q (parts f)}. q \<noteq> []} = proper_prefixes fs"
    by (auto simp: proper_prefixes_def)
  finally have "folders ?t = Suc (card (proper_prefixes fs))" .
  then show ?thesis using b l l' by blast
qed

lemma parts_two_files:
  "parts (mk_file ''src/index.js'') = [''src'', ''index.js'']"
  "parts (mk_file ''src/utils/math.js'') = [''src'', ''utils'', ''math.js'']"
  by (simp_all add: parts_def mk_file_def)

lemma two_files_prefix_free: "prefix_free two_files"
  by (simp add: prefix_free_def two_files_def parts_two_files)

lemma two_files_plain: "plain_segments two_files"
  by (simp add: plain_segments_def two_files_def parts_two_files Object_prototype_keys_def)

lemma two_files_distinct: "distinct (map path two_files)"
  by (simp add: two_files_def mk_file_def)

theorem C6_leaves_and_folders_witness:
  "prefix_free two_files \<and> plain_segments two_files \<and> distinct (map path two_files)
   \<and> (\<exists>t. buildFileTree two_files = Inr t \<and> leaves t = length two_files
          \<and> folders t = Suc (card (proper_prefixes two_files)))"
  using C6_leaves_and_folders [OF two_files_prefix_free two_files_plain] two_files_prefix_free two_files_plain
    two_files_distinct by blast

text \<open>
  C6, as the claim states it, fails for two files of the same path: the second write
  replaces the first, and the tree of the two files has one file node.
\<close>

theorem C6_duplicate_paths_one_leaf:
  "buildFileTree [mk_file ''a'', mk_file ''a''] =
     Inr (FolderNode ''root'' [(''a'', FileNode (new_file_node ''a'' (mk_file ''a'')))])
   \<and> leaves (FolderNode ''root'' [(''a'', FileNode (new_file_node ''a'' (mk_file ''a'')))]) = 1
   \<and> leaves (FolderNode ''root'' [(''a'', FileNode (new_file_node ''a'' (mk_file ''a'')))])
       \<noteq> length [mk_file ''a'', mk_file ''a'']"
  by (simp add: buildFileTree_def mk_file_def)

end
